theory Spec2Isabelle
  imports Main "HOL-Library.Word"
begin

unbundle bit_operations_syntax

section \<open>Bytes, strings and errors\<close>

text \<open>
  A \<open>Uint8Array\<close> is a list of bytes. A JavaScript string is the list of its UTF-16
  code units, so the empty list is the (falsy) empty string. Names of modules, calls and
  sections, which the code only compares, and hexadecimal output are HOL strings.
\<close>

type_synonym u8 = "8 word"
type_synonym u8a = "u8 list"
type_synonym jsstring = "16 word list"

datatype error =
    DecodeError
  | NumberTooLarge
  | TextLengthExceeds nat
  | TextLengthLessThanRemainder nat nat
  | ExtrinsicLengthLessThanRemainder nat nat
  | InvalidTypePassed
  | ConstructorError string
  | TypeError
  | UnknownType string

section \<open>Compact codec\<close>

text \<open>
  Little-endian reading and writing of unsigned integers (\<open>u8aToBn\<close> and \<open>bnToU8a\<close>
  with a fixed number of bytes).
\<close>

fun u8aToBn :: "u8a \<Rightarrow> nat" where
  "u8aToBn [] = 0"
| "u8aToBn (b # bs) = unat b + 256 * u8aToBn bs"

fun bnToU8a :: "nat \<Rightarrow> nat \<Rightarrow> u8a" where
  "bnToU8a 0 n = []"
| "bnToU8a (Suc k) n = of_nat (n mod 256) # bnToU8a k (n div 256)"

text \<open>The least number of bytes that hold \<open>n\<close>; no byte for 0.\<close>

fun byteLength :: "nat \<Rightarrow> nat \<Rightarrow> nat" where
  "byteLength 0 n = 0"
| "byteLength (Suc fuel) n = (if n = 0 then 0 else Suc (byteLength fuel (n div 256)))"

text \<open>
  Modelled from the spec: the compact codec is not among the source files. The compact
  unsigned integer of the wire format: the low 2 bits of the first byte select the mode,
  single-byte (6-bit value), two-byte (14-bit value, little-endian), four-byte (30-bit
  value, little-endian) or big-integer (the top 6 bits of the first byte count the bytes
  that follow, less the 4 that every big integer has, and that many little-endian bytes
  follow). \<open>compactOffset\<close> is the number of bytes the prefix declares for itself and
  \<open>compactValue\<close> the integer it holds.
\<close>

definition compactOffset :: "u8a \<Rightarrow> nat" where
  "compactOffset u8a =
     (case u8a of
        [] \<Rightarrow> 1
      | b # bs \<Rightarrow>
          (let flag = b AND 3
           in if flag = 0 then 1
              else if flag = 1 then 2
              else if flag = 2 then 4
              else unat (drop_bit 2 b) + 5))"

definition compactValue :: "u8a \<Rightarrow> nat" where
  "compactValue u8a =
     (case u8a of
        [] \<Rightarrow> 0
      | b # bs \<Rightarrow>
          (let flag = b AND 3
           in if flag = 0 then unat (drop_bit 2 b)
              else if flag = 1 then u8aToBn (take 2 u8a) div 4
              else if flag = 2 then u8aToBn (take 4 u8a) div 4
              else u8aToBn (take (unat (drop_bit 2 b) + 4) bs)))"

text \<open>
  Modelled from the spec: \<open>decodeCompact(bytes) -> (value, bytesConsumed)\<close> fails with a
  decode error if the declared length exceeds the remaining buffer. As in the source the
  result is the pair \<open>[offset, length]\<close>.
\<close>

definition compactFromU8a :: "u8a \<Rightarrow> error + (nat \<times> nat)" where
  "compactFromU8a u8a =
     (if length u8a < compactOffset u8a then Inl DecodeError
      else Inr (compactOffset u8a, compactValue u8a))"

text \<open>
  Modelled from the spec: the compact encoding of an unsigned integer, in the smallest of
  the four modes that holds it.
\<close>

definition compactToU8a :: "nat \<Rightarrow> u8a" where
  "compactToU8a n =
     (if n \<le> 63 then [of_nat (n * 4)]
      else if n \<le> 16383 then bnToU8a 2 (n * 4 + 1)
      else if n \<le> 1073741823 then bnToU8a 4 (n * 4 + 2)
      else (let len = byteLength n n
            in of_nat ((len - 4) * 4 + 3) # bnToU8a len n))"

text \<open>
  Modelled from the spec: \<open>addLength(bytes) -> bytes\<close> prefixes a byte sequence with its
  compact-encoded length.
\<close>

definition compactAddLength :: "u8a \<Rightarrow> u8a" where
  "compactAddLength input = compactToU8a (length input) @ input"


section \<open>Text\<close>

text \<open>
  The conversions between strings and bytes (\<open>stringToU8a\<close>, \<open>u8aToString\<close>: the
  platform's UTF-8 encoder and decoder) belong to a library outside the repository. They
  are parameters of the functions that call them.
\<close>

definition MAX_LENGTH :: nat where
  "MAX_LENGTH = 128 * 1024"

record Text =
  String_value :: jsstring
  initialU8aLength :: nat
  override :: "jsstring option"

text \<open>
  The values \<open>decodeText\<close> accepts. \<open>Raw\<close> extends \<open>Uint8Array\<close>, so both \<open>U8a\<close>
  and \<open>RawU8a\<close> pass \<open>isU8a\<close>. A string that passes \<open>isHex\<close> is given by the bytes
  \<open>hexToU8a\<close> makes of it, and an object by the result of its \<open>toString()\<close>.
\<close>

datatype text_value =
    Null
  | U8a u8a
  | RawU8a u8a
  | HexString u8a
  | PlainString jsstring
  | TextValue Text
  | Object jsstring

definition subarray :: "u8a \<Rightarrow> nat \<Rightarrow> nat \<Rightarrow> u8a" where
  "subarray value start stop = take (stop - start) (drop start value)"

definition Text_toString :: "Text \<Rightarrow> jsstring" where
  "Text_toString t =
     (case override t of
        None \<Rightarrow> String_value t
      | Some s \<Rightarrow> if s \<noteq> [] then s else String_value t)"

fun decodeText :: "(u8a \<Rightarrow> jsstring) \<Rightarrow> text_value \<Rightarrow> error + (jsstring \<times> nat)" where
  "decodeText u8aToString (U8a value) =
     (if length value = 0 then Inr ([], 0)
      else case compactFromU8a value of
             Inl e \<Rightarrow> Inl e
           | Inr (offset, len) \<Rightarrow>
               if 2 ^ 53 \<le> len then Inl NumberTooLarge
               else let total = offset + len
                    in if \<not> len \<le> MAX_LENGTH then Inl (TextLengthExceeds len)
                       else if \<not> total \<le> length value
                         then Inl (TextLengthLessThanRemainder total (length value))
                       else Inr (u8aToString (subarray value offset total), total))"
| "decodeText u8aToString (RawU8a value) =
     (if length value = 0 then Inr ([], 0)
      else Inr (u8aToString value, 0))"
| "decodeText u8aToString (HexString bytes) = Inr (u8aToString bytes, 0)"
| "decodeText u8aToString Null = Inr ([], 0)"
| "decodeText u8aToString (PlainString s) = Inr (if s \<noteq> [] then s else [], 0)"
| "decodeText u8aToString (TextValue t) = Inr (Text_toString t, 0)"
| "decodeText u8aToString (Object s) = Inr (s, 0)"

text \<open>The constructor: the decoded string and the number of bytes it was read from.\<close>

definition Text_new :: "(u8a \<Rightarrow> jsstring) \<Rightarrow> text_value \<Rightarrow> error + Text" where
  "Text_new u8aToString value =
     (case decodeText u8aToString value of
        Inl e \<Rightarrow> Inl e
      | Inr (str, decodedLength) \<Rightarrow>
          Inr \<lparr>String_value = str, initialU8aLength = decodedLength, override = None\<rparr>)"

definition setOverride :: "jsstring \<Rightarrow> Text \<Rightarrow> Text" where
  "setOverride s t = t\<lparr>override := Some s\<rparr>"

definition Text_toU8a :: "(jsstring \<Rightarrow> u8a) \<Rightarrow> Text \<Rightarrow> bool \<Rightarrow> u8a" where
  "Text_toU8a stringToU8a t isBare =
     (let encoded = stringToU8a (String_value t)
      in if isBare then encoded else compactAddLength encoded)"

definition Text_encodedLength :: "(jsstring \<Rightarrow> u8a) \<Rightarrow> Text \<Rightarrow> nat" where
  "Text_encodedLength stringToU8a t = length (Text_toU8a stringToU8a t False)"

definition Text_isEmpty :: "Text \<Rightarrow> bool" where
  "Text_isEmpty t = (length (String_value t) = 0)"

text \<open>\<open>toJSON\<close> is \<open>toString()\<close>, and \<open>toHuman\<close> is \<open>toJSON()\<close>.\<close>

definition Text_toJSON :: "Text \<Rightarrow> jsstring" where
  "Text_toJSON t = Text_toString t"

definition Text_toHuman :: "Text \<Rightarrow> jsstring" where
  "Text_toHuman t = Text_toJSON t"

text \<open>
  \<open>eq(other)\<close>: \<open>isString\<close> holds of a primitive string and of a \<open>String\<close> object,
  which a \<open>Text\<close> is; both sides are compared through \<open>toString()\<close>.
\<close>

datatype eq_other = OtherString jsstring | OtherText Text | OtherNotString

definition Text_eq :: "Text \<Rightarrow> eq_other \<Rightarrow> bool" where
  "Text_eq t other =
     (case other of
        OtherString s \<Rightarrow> Text_toString t = s
      | OtherText t' \<Rightarrow> Text_toString t = Text_toString t'
      | OtherNotString \<Rightarrow> False)"

text \<open>
  Modelled from the spec: the hexadecimal projection of a byte sequence, \<open>0x\<close> followed by
  two digits for every byte, as in the constant \<open>0x000c4e00\<close> of the test scenario.
\<close>

definition hexDigit :: "nat \<Rightarrow> char" where
  "hexDigit d = (''0123456789abcdef'') ! d"

definition u8aToHex :: "u8a \<Rightarrow> string" where
  "u8aToHex bytes =
     ''0x'' @ concat (map (\<lambda>b. [hexDigit (unat b div 16), hexDigit (unat b mod 16)]) bytes)"

definition Text_toHex :: "(jsstring \<Rightarrow> u8a) \<Rightarrow> Text \<Rightarrow> string" where
  "Text_toHex stringToU8a t = u8aToHex (Text_toU8a stringToU8a t True)"

text \<open>
  A concrete pair of conversions for the examples: on strings of ASCII characters the
  UTF-8 encoder writes every code unit as one byte and the decoder reads it back.
\<close>

definition asciiToU8a :: "jsstring \<Rightarrow> u8a" where
  "asciiToU8a s = map ucast s"

definition u8aToAscii :: "u8a \<Rightarrow> jsstring" where
  "u8aToAscii bytes = map ucast bytes"


section \<open>Metadata\<close>

definition VERSION_IDX :: nat where
  "VERSION_IDX = 4"

text \<open>
  The module has one array \<open>EMPTY_METADATA\<close>, which every call shares: for an empty input
  \<open>toU8a\<close> returns that array itself, not a copy, and a write through it changes what
  later calls read. The state of the module is the contents of that array; they are
  \<open>EMPTY_METADATA\<close> when the module is loaded.
\<close>

definition EMPTY_METADATA :: u8a where
  "EMPTY_METADATA = [0x6d, 0x65, 0x74, 0x61, 9]"

definition EMPTY_U8A :: u8a where
  "EMPTY_U8A = []"

text \<open>
  An array is the module's \<open>EMPTY_METADATA\<close> or an array of the caller's (or a fresh one
  made of a hex string), which is given by its bytes.
\<close>

datatype array = EmptyMetadataArray | OwnArray u8a

definition array_contents :: "u8a \<Rightarrow> array \<Rightarrow> u8a" where
  "array_contents shared a = (case a of EmptyMetadataArray \<Rightarrow> shared | OwnArray bytes \<Rightarrow> bytes)"

text \<open>
  The values the \<open>Metadata\<close> constructor accepts: nothing, a \<open>Uint8Array\<close>, a string that
  passes \<open>isHex\<close> (given by the bytes \<open>u8aToU8a\<close> makes of it), any other string, and a
  \<open>Map\<close> or plain object. \<open>MEmptyMetadata\<close> is the array \<open>EMPTY_METADATA\<close> itself, which
  no caller holds and only \<open>decodeMetadata\<close> hands to itself.
\<close>

datatype 'o metadata_value =
    MUndefined
  | MU8a u8a
  | MHex u8a
  | MString jsstring
  | MObject 'o
  | MEmptyMetadata

text \<open>
  \<open>toU8a\<close>: a hex string is converted and passed to \<open>toU8a\<close> again, where it takes the
  \<open>isU8a\<close> branch; an absent value is the default parameter \<open>EMPTY_U8A\<close>. The result is
  the array that is returned: \<open>EMPTY_METADATA\<close> for an input of length 0, the input
  otherwise.
\<close>

fun toU8a :: "'o metadata_value \<Rightarrow> error + array" where
  "toU8a (MHex bytes) = Inr (if length bytes = 0 then EmptyMetadataArray else OwnArray bytes)"
| "toU8a (MU8a value) = Inr (if length value = 0 then EmptyMetadataArray else OwnArray value)"
| "toU8a MEmptyMetadata = Inr EmptyMetadataArray"
| "toU8a MUndefined =
     Inr (if length EMPTY_U8A = 0 then EmptyMetadataArray else OwnArray EMPTY_U8A)"
| "toU8a (MString s) = Inl InvalidTypePassed"
| "toU8a (MObject obj) = Inl InvalidTypePassed"

fun isU8a_or_falsy_or_isHex :: "'o metadata_value \<Rightarrow> bool" where
  "isU8a_or_falsy_or_isHex (MU8a value) = True"
| "isU8a_or_falsy_or_isHex MEmptyMetadata = True"
| "isU8a_or_falsy_or_isHex MUndefined = True"
| "isU8a_or_falsy_or_isHex (MHex bytes) = True"
| "isU8a_or_falsy_or_isHex (MString s) = (s = [])"
| "isU8a_or_falsy_or_isHex (MObject obj) = False"

text \<open>\<open>value[VERSION_IDX]\<close>, undefined beyond the end of the array.\<close>

definition versionByte :: "u8a \<Rightarrow> u8 option" where
  "versionByte value = (if VERSION_IDX < length value then Some (value ! VERSION_IDX) else None)"

text \<open>
  \<open>decodeMetadata\<close>, from the contents of the shared array to the result and the contents
  the call leaves in it. The constructor of \<open>MetadataVersioned\<close>, which decodes the blob
  under the version it declares, is not among the source files: it is the parameter
  \<open>MetadataVersioned\<close>, given the bytes of the array, and a failure it throws is \<open>Inl\<close>.
  The write \<open>value[VERSION_IDX] = 10\<close> goes into the array that \<open>toU8a\<close> returned: into
  the shared array when that is \<open>EMPTY_METADATA\<close>, and otherwise into the array of the
  caller, whose bytes are handed to the recursive call.
\<close>

function decodeMetadata ::
  "('o metadata_value \<Rightarrow> error + 'm) \<Rightarrow> u8a \<Rightarrow> 'o metadata_value \<Rightarrow> (error + 'm) \<times> u8a" where
  "decodeMetadata MetadataVersioned shared val =
     (if isU8a_or_falsy_or_isHex val then
        (case toU8a val of
           Inl e \<Rightarrow> (Inl e, shared)
         | Inr a \<Rightarrow>
             (case MetadataVersioned (MU8a (array_contents shared a)) of
                Inr m \<Rightarrow> (Inr m, shared)
              | Inl error \<Rightarrow>
                  if versionByte (array_contents shared a) = Some 9
                  then (case a of
                          EmptyMetadataArray \<Rightarrow>
                            decodeMetadata MetadataVersioned (shared[VERSION_IDX := 10])
                              MEmptyMetadata
                        | OwnArray value \<Rightarrow>
                            decodeMetadata MetadataVersioned shared
                              (MU8a (value[VERSION_IDX := 10])))
                  else (Inl error, shared)))
      else (MetadataVersioned val, shared))"
  by pat_completeness auto
termination
proof (relation "measure (\<lambda>(MetadataVersioned, shared, val).
         case toU8a val of
           Inl e \<Rightarrow> 0
         | Inr a \<Rightarrow> if versionByte (array_contents shared a) = Some 9 then 1 else 0)")
  show "wf (measure (\<lambda>(MetadataVersioned :: 'o metadata_value \<Rightarrow> error + 'm, shared, val).
         case toU8a val of
           Inl e \<Rightarrow> 0
         | Inr a \<Rightarrow> if versionByte (array_contents shared a) = Some 9 then (1::nat) else 0))"
    by simp
next
  fix MetadataVersioned :: "'o metadata_value \<Rightarrow> error + 'm"
    and shared :: u8a and val :: "'o metadata_value" and a :: array
  assume t: "toU8a val = Inr a"
    and v: "versionByte (array_contents shared a) = Some 9"
    and a: "a = EmptyMetadataArray"
  from v a have "VERSION_IDX < length shared"
    by (simp add: versionByte_def array_contents_def split: if_splits)
  then have "versionByte (shared[VERSION_IDX := 10]) = Some 10"
    by (simp add: versionByte_def)
  then show "((MetadataVersioned, shared[VERSION_IDX := 10], MEmptyMetadata),
              (MetadataVersioned, shared, val))
      \<in> measure (\<lambda>(MetadataVersioned, shared, val).
         case toU8a val of
           Inl e \<Rightarrow> 0
         | Inr a \<Rightarrow> if versionByte (array_contents shared a) = Some 9 then 1 else 0)"
    using t v by (simp add: array_contents_def)
next
  fix MetadataVersioned :: "'o metadata_value \<Rightarrow> error + 'm"
    and shared :: u8a and val :: "'o metadata_value" and a :: array and bytes :: u8a
  assume t: "toU8a val = Inr a"
    and v: "versionByte (array_contents shared a) = Some 9"
    and a: "a = OwnArray bytes"
  from v a have "VERSION_IDX < length bytes"
    by (simp add: versionByte_def array_contents_def split: if_splits)
  then have "versionByte (bytes[VERSION_IDX := 10]) = Some 10"
    and "bytes[VERSION_IDX := 10] \<noteq> []"
    by (auto simp add: versionByte_def)
  then show "((MetadataVersioned, shared, MU8a (bytes[VERSION_IDX := 10])),
              (MetadataVersioned, shared, val))
      \<in> measure (\<lambda>(MetadataVersioned, shared, val).
         case toU8a val of
           Inl e \<Rightarrow> 0
         | Inr a \<Rightarrow> if versionByte (array_contents shared a) = Some 9 then 1 else 0)"
    using t v by (simp add: array_contents_def)
qed

declare decodeMetadata.simps [simp del]

text \<open>
  The contents of \<open>EMPTY_METADATA\<close> after \<open>Metadata\<close> has been constructed from each
  value of a list in turn.
\<close>

fun sharedAfter ::
  "('o metadata_value \<Rightarrow> error + 'm) \<Rightarrow> u8a \<Rightarrow> 'o metadata_value list \<Rightarrow> u8a" where
  "sharedAfter MetadataVersioned shared [] = shared"
| "sharedAfter MetadataVersioned shared (val # vals) =
     sharedAfter MetadataVersioned (snd (decodeMetadata MetadataVersioned shared val)) vals"


section \<open>Extrinsic\<close>

text \<open>
  Modelled from the spec: the constants of \<open>./constants\<close> are not among the source files.
  The version byte has the format version in its low 7 bits and the signed flag in its top
  bit, \<open>versionByte = formatVersion | (0x80 if signed else 0)\<close>, and the latest known
  format version is 4.
\<close>

definition BIT_SIGNED :: nat where
  "BIT_SIGNED = 128"

definition BIT_UNSIGNED :: nat where
  "BIT_UNSIGNED = 0"

definition UNMASK_VERSION :: nat where
  "UNMASK_VERSION = 127"

definition DEFAULT_VERSION :: nat where
  "DEFAULT_VERSION = 4"

definition VERSIONS :: "string list" where
  "VERSIONS =
     [''ExtrinsicUnknown'',
      ''ExtrinsicUnknown'',
      ''ExtrinsicUnknown'',
      ''ExtrinsicUnknown'',
      ''ExtrinsicV4'']"

text \<open>
  What \<open>GenericExtrinsic\<close> reads of the inner value \<open>_raw\<close> (an \<open>ExtrinsicV4\<close> or an
  \<open>ExtrinsicUnknown\<close>, classes that are not among the source files): its \<open>version\<close>,
  its \<open>signature.isSigned\<close> and the bytes of its \<open>toU8a()\<close>.
\<close>

record ExtrinsicRaw =
  raw_version :: nat
  raw_signature_isSigned :: bool
  raw_toU8a :: u8a

text \<open>The options \<open>{ isSigned, version }\<close> given to \<open>registry.createType\<close>.\<close>

record ExtrinsicOptions =
  opt_isSigned :: bool
  opt_version :: "nat option"

text \<open>
  \<open>registry.createType\<close> is handed bytes, the object \<open>{ method: call }\<close>, an
  \<open>ExtrinsicValue\<close> object or nothing.
\<close>

datatype ('c, 'x) create_value =
    CUndefined
  | CBytes u8a
  | CMethod 'c
  | CValue 'x

text \<open>
  Modelled from the spec: the classes \<open>ExtrinsicV4\<close> and \<open>ExtrinsicUnknown\<close> are not
  among the source files. The inner value \<open>_raw\<close> is one of the two: an \<open>ExtrinsicV4\<close>,
  given by what \<open>GenericExtrinsic\<close> reads of it, or the explicit unknown-extrinsic variant
  that an unknown or unsupported format version decodes into, at the cost of opacity: it
  holds the value and the options it was constructed from.
\<close>

datatype ('c, 'x) inner =
    ExtrinsicV4 ExtrinsicRaw
  | ExtrinsicUnknown "('c, 'x) create_value" ExtrinsicOptions

text \<open>
  Modelled from the spec: the constructor of \<open>ExtrinsicUnknown\<close>, which is not among the
  source files. Unknown or unsupported format versions decode into the explicit
  unknown-extrinsic variant rather than failing outright.
\<close>

definition ExtrinsicUnknown_new ::
  "('c, 'x) create_value \<Rightarrow> ExtrinsicOptions \<Rightarrow> error + ('c, 'x) inner" where
  "ExtrinsicUnknown_new v opts = Inr (ExtrinsicUnknown v opts)"

text \<open>
  The values of the constructor of \<open>GenericExtrinsic\<close>: a byte array (a \<open>Uint8Array\<close>, a
  number array or a hex string, given by the bytes \<open>u8aToU8a\<close> makes of it), a \<open>Call\<close>,
  another \<open>GenericExtrinsic\<close> (given by its \<open>_raw\<close>), an \<open>ExtrinsicValue\<close> object, or
  nothing.
\<close>

datatype ('c, 'x) extrinsic_value =
    EUndefined
  | EBytes u8a
  | ECall 'c
  | EGeneric "('c, 'x) inner"
  | EValue 'x

datatype ('c, 'x) new_value =
    FromGeneric "('c, 'x) inner"
  | FromValue "('c, 'x) create_value"

text \<open>
  Modelled from the spec: the registry is not among the source files. It maps a type name
  to a constructor, and \<open>createType(name, value, extra)\<close> looks the constructor up by the
  name and constructs with the value and the extra configuration; a name the registry has
  no constructor for is the error \<open>UnknownType\<close>.
\<close>

type_synonym ('c, 'x) Registry =
  "string \<Rightarrow> (('c, 'x) create_value \<Rightarrow> ExtrinsicOptions \<Rightarrow> error + ('c, 'x) inner) option"

definition createType ::
  "('c, 'x) Registry \<Rightarrow> string \<Rightarrow> ('c, 'x) create_value \<Rightarrow> ExtrinsicOptions
     \<Rightarrow> error + ('c, 'x) inner" where
  "createType registry name v opts =
     (case registry name of
        None \<Rightarrow> Inl (UnknownType name)
      | Some construct \<Rightarrow> construct v opts)"

text \<open>A number under a bitwise operator; \<open>undefined\<close> is 0 there.\<close>

definition toInt32 :: "nat option \<Rightarrow> nat" where
  "toInt32 v = (case v of None \<Rightarrow> 0 | Some n \<Rightarrow> n)"

text \<open>
  \<open>_newFromValue\<close>. An index beyond the end of \<open>VERSIONS\<close> reads \<open>undefined\<close>, and
  \<open>||\<close> then takes \<open>VERSIONS[0]\<close>.
\<close>

fun newFromValue ::
  "('c, 'x) Registry \<Rightarrow> ('c, 'x) new_value \<Rightarrow> nat option \<Rightarrow> error + ('c, 'x) inner" where
  "newFromValue registry (FromGeneric raw) version = Inr raw"
| "newFromValue registry (FromValue v) version =
     (let isSigned = ((toInt32 version AND BIT_SIGNED) = BIT_SIGNED);
          i = toInt32 version AND UNMASK_VERSION;
          type = (if i < length VERSIONS \<and> VERSIONS ! i \<noteq> [] then VERSIONS ! i
                  else VERSIONS ! 0)
      in createType registry type v \<lparr>opt_isSigned = isSigned, opt_version = version\<rparr>)"

text \<open>\<open>_decodeU8a\<close>; \<open>data[0]\<close> is undefined when the declared length is 0.\<close>

definition decodeU8a ::
  "('c, 'x) Registry \<Rightarrow> u8a \<Rightarrow> nat option \<Rightarrow> error + ('c, 'x) inner" where
  "decodeU8a registry value version =
     (if length value = 0 then newFromValue registry (FromValue (CBytes [])) version
      else case compactFromU8a value of
             Inl e \<Rightarrow> Inl e
           | Inr (offset, len) \<Rightarrow>
               if 2 ^ 53 \<le> len then Inl NumberTooLarge
               else let total = offset + len
                    in if \<not> total \<le> length value
                       then Inl (ExtrinsicLengthLessThanRemainder total (length value))
                       else let data = subarray value offset total
                            in newFromValue registry
                                 (FromValue (CBytes (subarray data 1 (length data))))
                                 (case data of [] \<Rightarrow> None | b # bs \<Rightarrow> Some (unat b)))"

text \<open>\<open>_decodeExtrinsic\<close>; an absent \<open>version\<close> is \<open>DEFAULT_VERSION\<close>.\<close>

definition decodeExtrinsic ::
  "('c, 'x) Registry \<Rightarrow> ('c, 'x) extrinsic_value \<Rightarrow> nat option \<Rightarrow> error + ('c, 'x) inner" where
  "decodeExtrinsic registry value version0 =
     (let version = (case version0 of None \<Rightarrow> Some DEFAULT_VERSION | Some n \<Rightarrow> Some n)
      in case value of
           EBytes bytes \<Rightarrow> decodeU8a registry bytes version
         | ECall call \<Rightarrow> newFromValue registry (FromValue (CMethod call)) version
         | EGeneric raw \<Rightarrow> newFromValue registry (FromGeneric raw) version
         | EValue x \<Rightarrow> newFromValue registry (FromValue (CValue x)) version
         | EUndefined \<Rightarrow> newFromValue registry (FromValue CUndefined) version)"

text \<open>The getters \<open>type\<close>, \<open>isSigned\<close> and \<open>version\<close> of \<open>ExtrinsicBase\<close>.\<close>

definition Extrinsic_type :: "ExtrinsicRaw \<Rightarrow> nat" where
  "Extrinsic_type raw = raw_version raw"

definition Extrinsic_isSigned :: "ExtrinsicRaw \<Rightarrow> bool" where
  "Extrinsic_isSigned raw = raw_signature_isSigned raw"

definition Extrinsic_version :: "ExtrinsicRaw \<Rightarrow> nat" where
  "Extrinsic_version raw =
     Extrinsic_type raw OR (if Extrinsic_isSigned raw then BIT_SIGNED else BIT_UNSIGNED)"

definition u8aConcat :: "u8a \<Rightarrow> u8a \<Rightarrow> u8a" where
  "u8aConcat a b = a @ b"

text \<open>\<open>toU8a\<close> of \<open>GenericExtrinsic\<close>; a \<open>Uint8Array\<close> keeps the low 8 bits of a number.\<close>

definition GenericExtrinsic_toU8a :: "ExtrinsicRaw \<Rightarrow> bool \<Rightarrow> u8a" where
  "GenericExtrinsic_toU8a raw isBare =
     (let encoded = u8aConcat [of_nat (Extrinsic_version raw)] (raw_toU8a raw)
      in if isBare then encoded else compactAddLength encoded)"

section \<open>Objects\<close>

text \<open>
  An object with string keys is the list of its properties in the order of their insertion,
  the order of \<open>Object.keys\<close>. Assigning to a key that is there replaces the value in
  place, and a new key goes to the end.
\<close>

type_synonym 'v obj = "(string \<times> 'v) list"

definition Object_keys :: "'v obj \<Rightarrow> string list" where
  "Object_keys obj = map fst obj"

definition obj_get :: "'v obj \<Rightarrow> string \<Rightarrow> 'v option" where
  "obj_get obj k = map_of obj k"

fun obj_set :: "'v obj \<Rightarrow> string \<Rightarrow> 'v \<Rightarrow> 'v obj" where
  "obj_set [] k v = [(k, v)]"
| "obj_set ((k', v') # kvs) k v =
     (if k' = k then (k, v) # kvs else (k', v') # obj_set kvs k v)"

text \<open>The spread \<open>{ ...a, ...b }\<close>.\<close>

definition objectSpread :: "'v obj \<Rightarrow> 'v obj \<Rightarrow> 'v obj" where
  "objectSpread a b = foldl (\<lambda>result (k, v). obj_set result k v) a b"


section \<open>Derives\<close>

record Avail =
  instances :: "string list"
  withDetect :: bool

text \<open>An absent \<open>withDetect\<close> reads \<open>undefined\<close>, which \<open>&&\<close> takes as false.\<close>

definition checks :: "Avail obj" where
  "checks =
     [(''contracts'', \<lparr>instances = [''contracts''], withDetect = False\<rparr>),
      (''council'', \<lparr>instances = [''council''], withDetect = True\<rparr>),
      (''crowdloan'', \<lparr>instances = [''crowdloan''], withDetect = False\<rparr>),
      (''democracy'', \<lparr>instances = [''democracy''], withDetect = False\<rparr>),
      (''elections'',
         \<lparr>instances = [''phragmenElection'', ''electionsPhragmen'', ''elections'', ''council''],
          withDetect = True\<rparr>),
      (''imOnline'', \<lparr>instances = [''imOnline''], withDetect = False\<rparr>),
      (''membership'', \<lparr>instances = [''membership''], withDetect = False\<rparr>),
      (''parachains'', \<lparr>instances = [''parachains'', ''registrar''], withDetect = False\<rparr>),
      (''session'', \<lparr>instances = [''session''], withDetect = False\<rparr>),
      (''society'', \<lparr>instances = [''society''], withDetect = False\<rparr>),
      (''staking'', \<lparr>instances = [''staking''], withDetect = False\<rparr>),
      (''technicalCommittee'', \<lparr>instances = [''technicalCommittee''], withDetect = True\<rparr>),
      (''treasury'', \<lparr>instances = [''treasury''], withDetect = False\<rparr>)]"

text \<open>
  What \<open>injectFunctions\<close> reads of the api: the keys of \<open>api.query\<close>, the spec name of
  the runtime version, and \<open>api.registry.getModuleInstances\<close>, which may return
  \<open>undefined\<close>.
\<close>

record ApiInterfaceRx =
  api_query_keys :: "string list"
  api_runtimeVersion_specName :: string
  api_registry_getModuleInstances :: "string \<Rightarrow> string \<Rightarrow> string list option"

type_synonym 'f DeriveCreator = "string \<Rightarrow> ApiInterfaceRx \<Rightarrow> 'f"
type_synonym 'f DeriveCustom = "'f DeriveCreator obj obj"

definition getModuleInstances :: "ApiInterfaceRx \<Rightarrow> string \<Rightarrow> string \<Rightarrow> string list" where
  "getModuleInstances api specName moduleName =
     (case api_registry_getModuleInstances api specName moduleName of
        None \<Rightarrow> []
      | Some found \<Rightarrow> found)"

text \<open>The closures of \<open>injectFunctions\<close>, with the variables they capture as arguments.\<close>

definition filterQueryKeys :: "string list \<Rightarrow> string \<Rightarrow> bool" where
  "filterQueryKeys queryKeys q = (q \<in> set queryKeys)"

definition filterInstances :: "ApiInterfaceRx \<Rightarrow> string \<Rightarrow> string list \<Rightarrow> string \<Rightarrow> bool" where
  "filterInstances api specName queryKeys q =
     list_ex (filterQueryKeys queryKeys) (getModuleInstances api specName q)"

text \<open>
  \<open>checks\<close> is an object literal, so \<open>checks[s]\<close> reads an own property where there is
  one and otherwise what \<open>Object.prototype\<close> has under the name: a function, or for
  \<open>__proto__\<close> the prototype itself, all truthy and none with a property \<open>instances\<close>.
\<close>

definition Object_prototype_keys :: "string list" where
  "Object_prototype_keys =
     [''constructor'',
      ''__defineGetter__'',
      ''__defineSetter__'',
      ''hasOwnProperty'',
      ''__lookupGetter__'',
      ''__lookupSetter__'',
      ''isPrototypeOf'',
      ''propertyIsEnumerable'',
      ''toString'',
      ''valueOf'',
      ''__proto__'',
      ''toLocaleString'']"

datatype 'v property = Own 'v | Inherited | Undefined

definition checks_get :: "string \<Rightarrow> Avail property" where
  "checks_get s =
     (case obj_get checks s of
        Some c \<Rightarrow> Own c
      | None \<Rightarrow> if s \<in> set Object_prototype_keys then Inherited else Undefined)"

text \<open>
  \<open>isIncluded\<close>. On an inherited value \<open>!checks[s]\<close> is false and \<open>checks[s].instances\<close>
  is \<open>undefined\<close>, so that \<open>.some\<close> raises a \<open>TypeError\<close>.
\<close>

definition isIncluded :: "ApiInterfaceRx \<Rightarrow> string \<Rightarrow> string list \<Rightarrow> string \<Rightarrow> error + bool" where
  "isIncluded api specName queryKeys s =
     (case checks_get s of
        Undefined \<Rightarrow> Inr True
      | Inherited \<Rightarrow> Inl TypeError
      | Own c \<Rightarrow>
          Inr (list_ex (filterQueryKeys queryKeys) (instances c)
               \<or> (withDetect c \<and> list_ex (filterInstances api specName queryKeys) (instances c))))"

definition getKeys :: "'f DeriveCustom \<Rightarrow> string \<Rightarrow> string list" where
  "getKeys derives section =
     (case obj_get derives section of
        None \<Rightarrow> []
      | Some methods \<Rightarrow> Object_keys methods)"

text \<open>
  \<open>creator\<close> is \<open>None\<close> where \<open>derives[section][method]\<close> is not a function, which
  calling it raises.
\<close>

definition creator :: "string \<Rightarrow> ApiInterfaceRx \<Rightarrow> 'f DeriveCustom \<Rightarrow> string \<Rightarrow> string \<Rightarrow> 'f option" where
  "creator instanceId api derives section method =
     (case obj_get derives section of
        None \<Rightarrow> None
      | Some methods \<Rightarrow>
          (case obj_get methods method of
             None \<Rightarrow> None
           | Some f \<Rightarrow> Some (f instanceId api)))"

text \<open>
  Modelled from the spec: \<open>lazyDeriveSection\<close> is not among the source files. The lazy
  section is the builder that returns the fully populated mapping: under the section name,
  every key of the section with what the creator makes of it.
\<close>

definition lazyDeriveSection ::
  "(string \<times> 'r) list obj \<Rightarrow> string \<Rightarrow> (string \<Rightarrow> string list) \<Rightarrow> (string \<Rightarrow> string \<Rightarrow> 'r)
     \<Rightarrow> (string \<times> 'r) list obj" where
  "lazyDeriveSection result section getKeys' creator' =
     obj_set result section (map (\<lambda>method. (method, creator' section method)) (getKeys' section))"

text \<open>The loop of \<open>injectFunctions\<close> over \<open>names\<close>, from the result so far.\<close>

fun injectLoop ::
  "ApiInterfaceRx \<Rightarrow> string \<Rightarrow> string list \<Rightarrow> (string \<Rightarrow> string list) \<Rightarrow> (string \<Rightarrow> string \<Rightarrow> 'r)
     \<Rightarrow> (string \<times> 'r) list obj \<Rightarrow> string list \<Rightarrow> error + (string \<times> 'r) list obj" where
  "injectLoop api specName queryKeys getKeys' creator' result [] = Inr result"
| "injectLoop api specName queryKeys getKeys' creator' result (name # names) =
     (case isIncluded api specName queryKeys name of
        Inl e \<Rightarrow> Inl e
      | Inr included \<Rightarrow>
          injectLoop api specName queryKeys getKeys' creator'
            (if included then lazyDeriveSection result name getKeys' creator' else result)
            names)"

definition injectFunctions ::
  "string \<Rightarrow> ApiInterfaceRx \<Rightarrow> 'f DeriveCustom \<Rightarrow> error + (string \<times> 'f option) list obj" where
  "injectFunctions instanceId api derives =
     (let queryKeys = api_query_keys api;
          specName = api_runtimeVersion_specName api;
          names = Object_keys derives
      in injectLoop api specName queryKeys (getKeys derives) (creator instanceId api derives)
           [] names)"

text \<open>\<open>getAvailableDerives\<close>; the built-in sections \<open>derive\<close> are an argument.\<close>

definition getAvailableDerives ::
  "'f DeriveCustom \<Rightarrow> string \<Rightarrow> ApiInterfaceRx \<Rightarrow> 'f DeriveCustom
     \<Rightarrow> error + (string \<times> 'f option) list obj" where
  "getAvailableDerives derive instanceId api custom =
     (case injectFunctions instanceId api derive of
        Inl e \<Rightarrow> Inl e
      | Inr builtin \<Rightarrow>
          (case injectFunctions instanceId api custom of
             Inl e \<Rightarrow> Inl e
           | Inr added \<Rightarrow> Inr (objectSpread builtin added)))"

section \<open>Extrinsics from metadata\<close>

text \<open>
  A module of the metadata has a name and an optional list of calls; a call has a name and
  the rest of its description. \<open>stringCamelCase\<close>, \<open>createUnchecked\<close> and the static
  \<open>extrinsics\<close> that the result starts from are not among the source files and are
  arguments.
\<close>

record 'a FunctionMetadata =
  call_name :: string
  call_rest :: 'a

record 'a ModuleMetadata =
  modul_name :: string
  modul_calls :: "'a FunctionMetadata list option"

definition calls_isSome :: "'a ModuleMetadata \<Rightarrow> bool" where
  "calls_isSome modul = (modul_calls modul \<noteq> None)"

definition calls_unwrap :: "'a ModuleMetadata \<Rightarrow> 'a FunctionMetadata list" where
  "calls_unwrap modul = (case modul_calls modul of None \<Rightarrow> [] | Some calls \<Rightarrow> calls)"

definition fromMetadata ::
  "(string \<Rightarrow> string) \<Rightarrow> (string \<Rightarrow> nat \<Rightarrow> nat \<Rightarrow> 'a FunctionMetadata \<Rightarrow> 'f) \<Rightarrow> 'f obj obj
     \<Rightarrow> 'a ModuleMetadata list \<Rightarrow> 'f obj obj" where
  "fromMetadata stringCamelCase createUnchecked extrinsics modules =
     foldl (\<lambda>result (sectionIndex, modul).
              let section = stringCamelCase (modul_name modul)
              in obj_set result section
                   (foldl (\<lambda>newModule (methodIndex, callMetadata).
                             let method = stringCamelCase (call_name callMetadata)
                             in obj_set newModule method
                                  (createUnchecked section sectionIndex methodIndex callMetadata))
                      [] (enumerate 0 (calls_unwrap modul))))
       extrinsics
       (enumerate 0 (filter calls_isSome modules))"

section \<open>Values for the examples\<close>

text \<open>
  A versioned decoder that accepts a blob only under version 10, as for a payload of the
  version-10 shape.
\<close>

definition onlyV10 :: "unit metadata_value \<Rightarrow> error + u8a" where
  "onlyV10 v =
     (case v of
        MU8a bytes \<Rightarrow>
          if versionByte bytes = Some 10 then Inr bytes else Inl (ConstructorError ''version'')
      | _ \<Rightarrow> Inl InvalidTypePassed)"

text \<open>
  A versioned decoder that accepts the five bytes of the empty metadata, version 9 with
  nothing after it, and any blob of version 10.
\<close>

definition emptyOrV10 :: "unit metadata_value \<Rightarrow> error + u8a" where
  "emptyOrV10 v =
     (case v of
        MU8a bytes \<Rightarrow>
          if bytes = [0x6d, 0x65, 0x74, 0x61, 9] \<or> versionByte bytes = Some 10 then Inr bytes
          else Inl (ConstructorError ''version'')
      | _ \<Rightarrow> Inl InvalidTypePassed)"

text \<open>The text \<open>abc\<close>, constructed from a string.\<close>

definition abcText :: Text where
  "abcText = \<lparr>String_value = [0x61, 0x62, 0x63], initialU8aLength = 0, override = None\<rparr>"

text \<open>
  A registry with the two extrinsic types: \<open>ExtrinsicUnknown\<close>, and an \<open>ExtrinsicV4\<close>
  that is constructed from bytes, with the signed flag of the options and the bytes as its
  encoding.
\<close>

definition exampleRegistry :: "(unit, unit) Registry" where
  "exampleRegistry name =
     (if name = ''ExtrinsicUnknown'' then Some ExtrinsicUnknown_new
      else if name = ''ExtrinsicV4''
        then Some (\<lambda>v opts.
               case v of
                 CBytes bytes \<Rightarrow>
                   Inr (ExtrinsicV4 \<lparr>raw_version = 4,
                                     raw_signature_isSigned = opt_isSigned opts,
                                     raw_toU8a = bytes\<rparr>)
               | _ \<Rightarrow> Inl (ConstructorError name))
      else None)"

text \<open>
  A runtime with the query keys \<open>system\<close> and \<open>balances\<close> whose registry knows one
  instance of the council, and three sections to decorate.
\<close>

definition exampleApi :: ApiInterfaceRx where
  "exampleApi =
     \<lparr>api_query_keys = [''system'', ''balances''],
      api_runtimeVersion_specName = ''node'',
      api_registry_getModuleInstances =
        (\<lambda>specName moduleName.
           if moduleName = ''council'' then Some [''generalCouncil''] else None)\<rparr>"

definition exampleDerives :: "unit DeriveCustom" where
  "exampleDerives =
     [(''staking'', [(''account'', \<lambda>instanceId api. ())]),
      (''council'', [(''votes'', \<lambda>instanceId api. ())]),
      (''chain'', [(''bestNumber'', \<lambda>instanceId api. ())])]"

text \<open>
  A metadata of two modules, the first without calls, and a \<open>createUnchecked\<close> that
  returns what it is bound to.
\<close>

definition exampleModules :: "unit ModuleMetadata list" where
  "exampleModules =
     [\<lparr>modul_name = ''system'', modul_calls = None\<rparr>,
      \<lparr>modul_name = ''timestamp'',
       modul_calls = Some [\<lparr>call_name = ''set'', call_rest = ()\<rparr>]\<rparr>]"

definition exampleCreateUnchecked ::
  "string \<Rightarrow> nat \<Rightarrow> nat \<Rightarrow> unit FunctionMetadata \<Rightarrow> string \<times> nat \<times> nat" where
  "exampleCreateUnchecked section sectionIndex methodIndex callMetadata =
     (section, sectionIndex, methodIndex)"

section \<open>Properties of the compact codec\<close>

lemma three_mask: "(3::u8) = mask 2"
  by (simp add: mask_eq_exp_minus_1)

lemma unat_flag: "unat ((b::u8) AND 3) = unat b mod 4"
  by (simp add: three_mask flip: take_bit_eq_mask)
     (simp add: unsigned_take_bit_eq take_bit_eq_mod unat_mod)

lemma unat_drop2: "unat (drop_bit 2 (b::u8)) = unat b div 4"
  by (simp add: unat_drop_bit_eq drop_bit_eq_div unat_div)

lemma flag_eq_iff:
  "((b::u8) AND 3 = 0) = (unat b mod 4 = 0)"
  "((b::u8) AND 3 = 1) = (unat b mod 4 = 1)"
  "((b::u8) AND 3 = 2) = (unat b mod 4 = 2)"
  by (simp_all add: word_unat_eq_iff unat_flag)

lemma compactOffset_Cons:
  "compactOffset (b # bs) =
     (if unat b mod 4 = 0 then 1 else if unat b mod 4 = 1 then 2
      else if unat b mod 4 = 2 then 4 else unat b div 4 + 5)"
  by (simp add: compactOffset_def flag_eq_iff unat_drop2 Let_def)

lemma compactValue_Cons:
  "compactValue (b # bs) =
     (if unat b mod 4 = 0 then unat b div 4
      else if unat b mod 4 = 1 then u8aToBn (take 2 (b # bs)) div 4
      else if unat b mod 4 = 2 then u8aToBn (take 4 (b # bs)) div 4
      else u8aToBn (take (unat b div 4 + 4) bs))"
  by (simp add: compactValue_def flag_eq_iff unat_drop2 Let_def)

lemma length_bnToU8a [simp]: "length (bnToU8a k n) = k"
  by (induction k arbitrary: n) auto

lemma unat_byte: "unat (of_nat n :: u8) = n mod 256"
  by (simp add: unat_of_nat)

text \<open>Writing a number in enough bytes and reading them back gives the number.\<close>

lemma u8aToBn_bnToU8a: "n < 256 ^ k \<Longrightarrow> u8aToBn (bnToU8a k n) = n"
proof (induction k arbitrary: n)
  case 0
  then show ?case by simp
next
  case (Suc k)
  have "n div 256 < 256 ^ k"
    using Suc.prems by (simp add: less_mult_imp_div_less mult.commute)
  then have "u8aToBn (bnToU8a k (n div 256)) = n div 256"
    by (rule Suc.IH)
  moreover have "unat (of_nat (n mod 256) :: u8) = n mod 256"
    by (simp add: unat_of_nat)
  ultimately show ?case by simp
qed

lemma mod_256_mod_4: "(m::nat) mod 256 mod 4 = m mod 4"
  by (simp add: mod_mod_cancel)

lemma bnToU8a_append_Cons:
  "bnToU8a (Suc k) m @ rest = of_nat (m mod 256) # (bnToU8a k (m div 256) @ rest)"
  by (simp only: bnToU8a.simps append_Cons)

lemma compactOffset_bnToU8a:
  "compactOffset (bnToU8a (Suc k) m @ rest) =
     (if m mod 4 = 0 then 1 else if m mod 4 = 1 then 2
      else if m mod 4 = 2 then 4 else m mod 256 div 4 + 5)"
  unfolding bnToU8a_append_Cons compactOffset_Cons unat_byte mod_mod_trivial mod_256_mod_4
  by (rule refl)

lemma compactValue_bnToU8a:
  "compactValue (bnToU8a (Suc k) m @ rest) =
     (if m mod 4 = 0 then m mod 256 div 4
      else if m mod 4 = 1 then u8aToBn (take 2 (bnToU8a (Suc k) m @ rest)) div 4
      else if m mod 4 = 2 then u8aToBn (take 4 (bnToU8a (Suc k) m @ rest)) div 4
      else u8aToBn (take (m mod 256 div 4 + 4) (bnToU8a k (m div 256) @ rest)))"
  unfolding bnToU8a_append_Cons compactValue_Cons unat_byte mod_mod_trivial mod_256_mod_4
  by (rule refl)

lemma take_bnToU8a_append: "take k (bnToU8a k m @ rest) = bnToU8a k m"
  by simp

lemma bnToU8a_numeral_Suc: "bnToU8a (numeral k) m = bnToU8a (Suc (pred_numeral k)) m"
  by (simp only: numeral_eq_Suc)

lemma compactToU8a_1: "n \<le> 63 \<Longrightarrow> compactToU8a n = bnToU8a (Suc 0) (n * 4)"
  unfolding compactToU8a_def bnToU8a.simps by (simp del: of_nat_mult)

lemma compactToU8a_2:
  "63 < n \<Longrightarrow> n \<le> 16383 \<Longrightarrow> compactToU8a n = bnToU8a 2 (n * 4 + 1)"
  unfolding compactToU8a_def by simp

lemma compactToU8a_4:
  "16383 < n \<Longrightarrow> n \<le> 1073741823 \<Longrightarrow> compactToU8a n = bnToU8a 4 (n * 4 + 2)"
  unfolding compactToU8a_def by simp

lemma compactOffset_mode:
  "m mod 4 = 0 \<Longrightarrow> compactOffset (bnToU8a (Suc k) m @ rest) = 1"
  "m mod 4 = 1 \<Longrightarrow> compactOffset (bnToU8a (Suc k) m @ rest) = 2"
  "m mod 4 = 2 \<Longrightarrow> compactOffset (bnToU8a (Suc k) m @ rest) = 4"
  by (simp_all only: compactOffset_bnToU8a) simp_all

lemma compactOffset_mode_numeral:
  "m mod 4 = 1 \<Longrightarrow> compactOffset (bnToU8a (numeral j) m @ rest) = 2"
  "m mod 4 = 2 \<Longrightarrow> compactOffset (bnToU8a (numeral j) m @ rest) = 4"
  by (simp_all only: bnToU8a_numeral_Suc compactOffset_mode)

lemma compactValue_mode0:
  "m mod 4 = 0 \<Longrightarrow> m < 256 \<Longrightarrow> compactValue (bnToU8a (Suc k) m @ rest) = m div 4"
  by (simp only: compactValue_bnToU8a) simp

lemma compactValue_mode1:
  assumes "m mod 4 = 1" "m < 256 ^ 2"
  shows "compactValue (bnToU8a 2 m @ rest) = m div 4"
proof -
  have "compactValue (bnToU8a 2 m @ rest) = u8aToBn (take 2 (bnToU8a 2 m @ rest)) div 4"
    using assms(1) by (simp only: bnToU8a_numeral_Suc compactValue_bnToU8a) simp
  also have "\<dots> = m div 4"
    by (simp only: take_bnToU8a_append u8aToBn_bnToU8a [OF assms(2)])
  finally show ?thesis .
qed

lemma compactValue_mode2:
  assumes "m mod 4 = 2" "m < 256 ^ 4"
  shows "compactValue (bnToU8a 4 m @ rest) = m div 4"
proof -
  have "compactValue (bnToU8a 4 m @ rest) = u8aToBn (take 4 (bnToU8a 4 m @ rest)) div 4"
    using assms(1) by (simp only: bnToU8a_numeral_Suc compactValue_bnToU8a) simp
  also have "\<dots> = m div 4"
    by (simp only: take_bnToU8a_append u8aToBn_bnToU8a [OF assms(2)])
  finally show ?thesis .
qed

lemma compactOffset_compactToU8a:
  assumes "n \<le> 1073741823"
  shows "compactOffset (compactToU8a n @ rest) = length (compactToU8a n)"
proof -
  consider "n \<le> 63" | "63 < n" "n \<le> 16383" | "16383 < n" "n \<le> 1073741823"
    using assms by linarith
  then show ?thesis
  proof cases
    case 1
    have "n * 4 mod 4 = 0" by simp
    then have "compactOffset (bnToU8a (Suc 0) (n * 4) @ rest) = 1"
      by (rule compactOffset_mode(1))
    then show ?thesis using 1 by (simp only: compactToU8a_1 length_bnToU8a One_nat_def)
  next
    case 2
    have "(n * 4 + 1) mod 4 = 1" by presburger
    then have "compactOffset (bnToU8a 2 (n * 4 + 1) @ rest) = 2"
      by (rule compactOffset_mode_numeral(1))
    then show ?thesis using 2 by (simp only: compactToU8a_2 length_bnToU8a)
  next
    case 3
    have "(n * 4 + 2) mod 4 = 2" by presburger
    then have "compactOffset (bnToU8a 4 (n * 4 + 2) @ rest) = 4"
      by (rule compactOffset_mode_numeral(2))
    then show ?thesis using 3 by (simp only: compactToU8a_4 length_bnToU8a)
  qed
qed

lemma compactValue_compactToU8a:
  assumes "n \<le> 1073741823"
  shows "compactValue (compactToU8a n @ rest) = n"
proof -
  consider "n \<le> 63" | "63 < n" "n \<le> 16383" | "16383 < n" "n \<le> 1073741823"
    using assms by linarith
  then show ?thesis
  proof cases
    case 1
    have "n * 4 mod 4 = 0" by simp
    moreover have "n * 4 < 256" using 1 by simp
    ultimately have "compactValue (bnToU8a (Suc 0) (n * 4) @ rest) = n * 4 div 4"
      by (rule compactValue_mode0)
    then show ?thesis using 1 by (simp add: compactToU8a_1 del: bnToU8a.simps)
  next
    case 2
    have "(n * 4 + 1) mod 4 = 1" by presburger
    moreover have "n * 4 + 1 < 256 ^ 2" using 2(2) by simp
    ultimately have "compactValue (bnToU8a 2 (n * 4 + 1) @ rest) = (n * 4 + 1) div 4"
      by (rule compactValue_mode1)
    moreover have "(n * 4 + 1) div 4 = n" by simp
    ultimately show ?thesis using 2 by (simp only: compactToU8a_2)
  next
    case 3
    have "(n * 4 + 2) mod 4 = 2" by presburger
    moreover have "n * 4 + 2 < 256 ^ 4" using 3(2) by simp
    ultimately have "compactValue (bnToU8a 4 (n * 4 + 2) @ rest) = (n * 4 + 2) div 4"
      by (rule compactValue_mode2)
    moreover have "(n * 4 + 2) div 4 = n" by simp
    ultimately show ?thesis using 3 by (simp only: compactToU8a_4)
  qed
qed

text \<open>
  Decoding reads back what encoding wrote, whatever follows, for every length below
  \<open>2 ^ 30\<close>.
\<close>

lemma compactFromU8a_compactToU8a:
  "n \<le> 1073741823 \<Longrightarrow>
   compactFromU8a (compactToU8a n @ rest) = Inr (length (compactToU8a n), n)"
  by (simp add: compactFromU8a_def compactOffset_compactToU8a compactValue_compactToU8a)

text \<open>The fuel that \<open>compactToU8a\<close> gives \<open>byteLength\<close> is always enough.\<close>

lemma byteLength_enough: "n \<le> fuel \<Longrightarrow> n < 256 ^ byteLength fuel n"
proof (induction fuel arbitrary: n)
  case 0
  then show ?case by simp
next
  case (Suc fuel)
  show ?case
  proof (cases "n = 0")
    case True
    then show ?thesis by simp
  next
    case False
    then have "n div 256 < n" by simp
    then have "n div 256 \<le> fuel" using Suc.prems by linarith
    then have "n div 256 < 256 ^ byteLength fuel (n div 256)" by (rule Suc.IH)
    then have "n < 256 * 256 ^ byteLength fuel (n div 256)"
      by (simp add: div_less_iff_less_mult mult.commute)
    then show ?thesis using False by simp
  qed
qed

lemma length_compactToU8a_eq:
  "length (compactToU8a n) =
     (if n \<le> 63 then 1 else if n \<le> 16383 then 2
      else if n \<le> 1073741823 then 4 else Suc (byteLength n n))"
  by (simp add: compactToU8a_def Let_def)

lemma length_compactToU8a_pos: "0 < length (compactToU8a n)"
  by (simp add: length_compactToU8a_eq del: length_greater_0_conv)

lemma length_compactAddLength: "length input < length (compactAddLength input)"
  using length_compactToU8a_pos [of "length input"] by (simp add: compactAddLength_def)

lemma length_u8aToHex: "length (u8aToHex bytes) = 2 + 2 * length bytes"
  by (induction bytes) (simp_all add: u8aToHex_def)

section \<open>Text\<close>

lemma decodeText_compactAddLength:
  assumes "length body \<le> MAX_LENGTH"
  shows "decodeText u8aToString (U8a (compactAddLength body @ rest)) =
           Inr (u8aToString body, length (compactAddLength body))"
proof -
  let ?n = "length body"
  let ?p = "compactToU8a ?n"
  have n: "?n \<le> 1073741823" using assms by (simp add: MAX_LENGTH_def)
  have c: "compactFromU8a (?p @ (body @ rest)) = Inr (length ?p, ?n)"
    using n by (rule compactFromU8a_compactToU8a)
  have s: "subarray (?p @ (body @ rest)) (length ?p) (length ?p + ?n) = body"
    by (simp add: subarray_def)
  have l: "?n < 2 ^ 53" using assms by (simp add: MAX_LENGTH_def)
  have p: "?p \<noteq> []" using length_compactToU8a_pos [of ?n] by auto
  show ?thesis
    using assms l p by (simp add: compactAddLength_def c s Let_def)
qed

text \<open>
  Claim C8 as stated fails twice on the text \<open>abc\<close>. After \<open>setOverride('')\<close> the
  output of \<open>toString\<close> is still \<open>abc\<close> and not the override, the empty string, which
  \<open>||\<close> takes as absent. And \<open>toString\<close> is not all that an override changes: the text
  equals the string \<open>abc\<close> under \<open>eq\<close>, and after \<open>setOverride('x')\<close> it does not.
\<close>

theorem setOverride_counterexample:
  "Text_toString (setOverride [] abcText) = [0x61, 0x62, 0x63]
   \<and> Text_toString (setOverride [] abcText) \<noteq> []
   \<and> Text_eq abcText (OtherString [0x61, 0x62, 0x63])
   \<and> \<not> Text_eq (setOverride [0x78] abcText) (OtherString [0x61, 0x62, 0x63])"
  by (simp add: Text_toString_def Text_eq_def setOverride_def abcText_def)

text \<open>
  Claim C8, as amended. After \<open>setOverride(s)\<close> the bytes of \<open>toU8a(isBare)\<close> are those
  of the value the text was constructed with, for both values of \<open>isBare\<close>, and
  \<open>encodedLength\<close>, the hex projection, the string, the initial length and \<open>isEmpty\<close> are
  what they were. The display output, which is \<open>toString\<close>, \<open>toJSON\<close> and \<open>toHuman\<close>, is
  the override when the override is not the empty string, and the original string when it
  is.
\<close>

theorem setOverride_display_only:
  "Text_toU8a stringToU8a (setOverride s t) isBare = Text_toU8a stringToU8a t isBare
   \<and> Text_encodedLength stringToU8a (setOverride s t) = Text_encodedLength stringToU8a t
   \<and> Text_toHex stringToU8a (setOverride s t) = Text_toHex stringToU8a t
   \<and> String_value (setOverride s t) = String_value t
   \<and> initialU8aLength (setOverride s t) = initialU8aLength t
   \<and> Text_isEmpty (setOverride s t) = Text_isEmpty t
   \<and> Text_toString (setOverride s t) = (if s \<noteq> [] then s else String_value t)
   \<and> Text_toJSON (setOverride s t) = (if s \<noteq> [] then s else String_value t)
   \<and> Text_toHuman (setOverride s t) = (if s \<noteq> [] then s else String_value t)"
  by (simp add: Text_toU8a_def Text_encodedLength_def Text_toHex_def setOverride_def
        Text_toString_def Text_isEmpty_def Text_toJSON_def Text_toHuman_def)

text \<open>
  Claim C10. \<open>toHex\<close> is the hex projection of the bare encoding, the bytes of the string
  without the compact length prefix, so it is never the hex of the length-prefixed
  \<open>toU8a(false)\<close>: that one is longer, for the empty text as well as for every non-empty
  one.
\<close>

theorem toHex_is_bare:
  "Text_toHex stringToU8a t = u8aToHex (Text_toU8a stringToU8a t True)
   \<and> Text_toU8a stringToU8a t True = stringToU8a (String_value t)
   \<and> Text_toHex stringToU8a t \<noteq> u8aToHex (Text_toU8a stringToU8a t False)"
proof -
  have "length (Text_toHex stringToU8a t)
          \<noteq> length (u8aToHex (Text_toU8a stringToU8a t False))"
    using length_compactAddLength [of "stringToU8a (String_value t)"]
    by (simp add: Text_toHex_def Text_toU8a_def length_u8aToHex)
  then have "Text_toHex stringToU8a t \<noteq> u8aToHex (Text_toU8a stringToU8a t False)"
    by auto
  then show ?thesis by (simp add: Text_toHex_def Text_toU8a_def)
qed

text \<open>
  Claim C6. Decoding a zero-length byte sequence gives the empty string with zero bytes
  consumed. Decoding a non-empty byte sequence, one that is not a \<open>Raw\<close>, reads a compact
  length prefix and fails if and only if the declared length exceeds the maximum of 128 KiB
  or the prefix offset plus the declared length exceeds the length of the buffer (a prefix
  cut short by the end of the buffer is such a case); otherwise the result is the text of
  the slice, with prefix plus body as the bytes consumed.
\<close>

theorem decodeText_bounds:
  "decodeText u8aToString (U8a []) = Inr ([], 0)
   \<and> decodeText u8aToString (RawU8a []) = Inr ([], 0)
   \<and> (value \<noteq> [] \<longrightarrow>
        isl (decodeText u8aToString (U8a value))
          = (MAX_LENGTH < compactValue value
             \<or> length value < compactOffset value + compactValue value)
        \<and> (\<not> isl (decodeText u8aToString (U8a value)) \<longrightarrow>
             decodeText u8aToString (U8a value) =
               Inr (u8aToString (subarray value (compactOffset value)
                                   (compactOffset value + compactValue value)),
                    compactOffset value + compactValue value)))"
  by (auto simp add: compactFromU8a_def MAX_LENGTH_def Let_def)

text \<open>
  The bytes \<open>0c 61 62 63 64\<close> decode to the three characters the prefix declares, with 4
  bytes consumed; \<open>0c 61 62\<close> declares more than the buffer holds, and \<open>06 00 08 00\<close>
  declares 131073 bytes, more than the maximum.
\<close>

theorem decodeText_bounds_witness:
  "[12, 97, 98, 99, 100] \<noteq> ([] :: u8a)
   \<and> \<not> isl (decodeText u8aToAscii (U8a [12, 97, 98, 99, 100]))
   \<and> decodeText u8aToAscii (U8a [12, 97, 98, 99, 100]) = Inr ([97, 98, 99], 4)
   \<and> isl (decodeText u8aToAscii (U8a [12, 97, 98]))
   \<and> isl (decodeText u8aToAscii (U8a [6, 0, 8, 0]))"
  using decodeText_bounds [of u8aToAscii "[12, 97, 98, 99, 100]"]
        decodeText_bounds [of u8aToAscii "[12, 97, 98]"]
        decodeText_bounds [of u8aToAscii "[6, 0, 8, 0]"]
  by (simp add: compactOffset_def compactValue_def MAX_LENGTH_def subarray_def u8aToAscii_def)

text \<open>
  A \<open>Raw\<close> carries no length of its own: it is decoded whole, with no prefix read and zero
  bytes consumed.
\<close>

lemma decodeText_Raw:
  "decodeText u8aToString (RawU8a value) = Inr (if value = [] then [] else u8aToString value, 0)"
  by simp

text \<open>
  Claim C1, as amended, for \<open>Text\<close>. A text that has no display override, whose bytes the
  string decoder reads back and whose encoded body is at most 128 KiB is decoded from its
  own \<open>toU8a(false)\<close>, whatever follows it in the buffer, into a text of the same string,
  equal to it under \<open>eq\<close> in both directions, with the whole encoding as the bytes
  consumed. A buffer that starts with the compact length prefix of a body of at most
  128 KiB, which the string encoder writes back, is decoded into a text whose
  \<open>toU8a(false)\<close> is that prefix and body again. The bare encoding is the body alone, and
  adding the compact length to it gives \<open>toU8a(false)\<close>.
\<close>

theorem Text_round_trip:
  "(u8aToString (stringToU8a (String_value t)) = String_value t
      \<and> length (stringToU8a (String_value t)) \<le> MAX_LENGTH
      \<and> Text_toString t = String_value t
    \<longrightarrow> Text_new u8aToString (U8a (Text_toU8a stringToU8a t False @ rest))
          = Inr \<lparr>String_value = String_value t,
                 initialU8aLength = Text_encodedLength stringToU8a t,
                 override = None\<rparr>
        \<and> Text_eq t (OtherText \<lparr>String_value = String_value t,
                 initialU8aLength = Text_encodedLength stringToU8a t,
                 override = None\<rparr>)
        \<and> Text_eq \<lparr>String_value = String_value t,
                 initialU8aLength = Text_encodedLength stringToU8a t,
                 override = None\<rparr> (OtherText t))
   \<and> (stringToU8a (u8aToString body) = body \<and> length body \<le> MAX_LENGTH
    \<longrightarrow> Text_new u8aToString (U8a (compactAddLength body @ rest))
          = Inr \<lparr>String_value = u8aToString body,
                 initialU8aLength = length (compactAddLength body),
                 override = None\<rparr>
        \<and> Text_toU8a stringToU8a \<lparr>String_value = u8aToString body,
                 initialU8aLength = length (compactAddLength body),
                 override = None\<rparr> False = compactAddLength body)
   \<and> compactAddLength (Text_toU8a stringToU8a t True) = Text_toU8a stringToU8a t False"
proof -
  have a: "Text_new u8aToString (U8a (Text_toU8a stringToU8a t False @ rest))
          = Inr \<lparr>String_value = String_value t,
                 initialU8aLength = Text_encodedLength stringToU8a t,
                 override = None\<rparr>"
    if "u8aToString (stringToU8a (String_value t)) = String_value t"
      and "length (stringToU8a (String_value t)) \<le> MAX_LENGTH"
    using that decodeText_compactAddLength [of "stringToU8a (String_value t)" u8aToString rest]
    by (simp add: Text_new_def Text_toU8a_def Text_encodedLength_def)
  have b: "Text_new u8aToString (U8a (compactAddLength body @ rest))
          = Inr \<lparr>String_value = u8aToString body,
                 initialU8aLength = length (compactAddLength body),
                 override = None\<rparr>"
    if "length body \<le> MAX_LENGTH"
    using that decodeText_compactAddLength [of body u8aToString rest]
    by (simp add: Text_new_def)
  show ?thesis
    using a b by (simp add: Text_eq_def Text_toString_def Text_toU8a_def)
qed

text \<open>The text \<open>abc\<close> and the buffer \<open>0c 61 62 63 ff\<close>.\<close>

theorem Text_round_trip_witness:
  "u8aToAscii (asciiToU8a [0x61, 0x62, 0x63]) = [0x61, 0x62, 0x63]
   \<and> Text_new u8aToAscii
        (U8a (Text_toU8a asciiToU8a
           \<lparr>String_value = [0x61, 0x62, 0x63], initialU8aLength = 0, override = None\<rparr> False))
      = Inr \<lparr>String_value = [0x61, 0x62, 0x63], initialU8aLength = 4, override = None\<rparr>
   \<and> asciiToU8a (u8aToAscii [0x61, 0x62, 0x63]) = [0x61, 0x62, 0x63]
   \<and> Text_new u8aToAscii (U8a [12, 0x61, 0x62, 0x63, 0xFF])
      = Inr \<lparr>String_value = [0x61, 0x62, 0x63], initialU8aLength = 4, override = None\<rparr>
   \<and> Text_toU8a asciiToU8a
        \<lparr>String_value = [0x61, 0x62, 0x63], initialU8aLength = 4, override = None\<rparr> False
      = [12, 0x61, 0x62, 0x63]"
  using Text_round_trip [of u8aToAscii asciiToU8a
          "\<lparr>String_value = [0x61, 0x62, 0x63], initialU8aLength = 0, override = None\<rparr>"
          "[]" "[0x61, 0x62, 0x63]"]
        Text_round_trip [of u8aToAscii asciiToU8a
          "\<lparr>String_value = [0x61, 0x62, 0x63], initialU8aLength = 0, override = None\<rparr>"
          "[0xFF]" "[0x61, 0x62, 0x63]"]
  by (simp add: u8aToAscii_def asciiToU8a_def MAX_LENGTH_def Text_toString_def
        Text_encodedLength_def Text_toU8a_def compactAddLength_def compactToU8a_def)

lemma bnToU8a_numeral:
  "bnToU8a (numeral k) n = of_nat (n mod 256) # bnToU8a (pred_numeral k) (n div 256)"
  by (simp only: numeral_eq_Suc [of k] bnToU8a.simps)

text \<open>
  Claim C1 as stated fails on a text of 131073 characters \<open>a\<close>: the string conversions
  read it back, its encoding is the prefix \<open>06 00 08 00\<close> and the 131073 bytes, and
  decoding that encoding is refused, since the declared length exceeds \<open>MAX_LENGTH\<close>.
\<close>

theorem Text_round_trip_counterexample:
  "u8aToAscii (asciiToU8a (replicate 131073 0x61)) = replicate 131073 0x61
   \<and> Text_toU8a asciiToU8a
        \<lparr>String_value = replicate 131073 0x61, initialU8aLength = 0, override = None\<rparr> False
      = [6, 0, 8, 0] @ replicate 131073 0x61
   \<and> Text_new u8aToAscii (U8a (Text_toU8a asciiToU8a
        \<lparr>String_value = replicate 131073 0x61, initialU8aLength = 0, override = None\<rparr> False))
      = Inl (TextLengthExceeds 131073)"
proof -
  let ?t = "\<lparr>String_value = replicate 131073 0x61, initialU8aLength = 0, override = None\<rparr>"
  have e: "asciiToU8a (replicate 131073 0x61) = replicate 131073 0x61"
    by (simp add: asciiToU8a_def)
  have r: "u8aToAscii (replicate 131073 0x61) = replicate 131073 0x61"
    by (simp add: u8aToAscii_def)
  have p: "compactToU8a 131073 = [6, 0, 8, 0]"
    by (simp add: compactToU8a_def bnToU8a_numeral)
  have t: "Text_toU8a asciiToU8a ?t False = compactToU8a 131073 @ replicate 131073 0x61"
    by (simp add: Text_toU8a_def compactAddLength_def e)
  have c: "compactFromU8a (compactToU8a 131073 @ replicate 131073 0x61)
             = Inr (length (compactToU8a 131073), 131073)"
    by (rule compactFromU8a_compactToU8a) simp
  have d: "decodeText u8aToAscii (U8a (compactToU8a 131073 @ replicate 131073 0x61))
      = Inl (TextLengthExceeds 131073)"
    using length_compactToU8a_pos [of 131073] by (simp add: c MAX_LENGTH_def)
  have n: "Text_new u8aToAscii (U8a (Text_toU8a asciiToU8a ?t False))
      = Inl (TextLengthExceeds 131073)"
    by (simp only: Text_new_def t d sum.case)
  have t': "Text_toU8a asciiToU8a ?t False = [6, 0, 8, 0] @ replicate 131073 0x61"
    by (simp only: t p)
  have er: "u8aToAscii (asciiToU8a (replicate 131073 0x61)) = replicate 131073 0x61"
    by (simp only: e r)
  from er t' n show ?thesis by (intro conjI)
qed

section \<open>Metadata\<close>

text \<open>
  The retry of \<open>decodeMetadata\<close>: an array whose version byte has been rewritten to 10 is
  decoded once, and its failure is the result.
\<close>

lemma decodeMetadata_rewritten:
  assumes "toU8a val = Inr a" and "versionByte (array_contents shared a) = Some 10"
  shows "decodeMetadata MetadataVersioned shared val =
           (MetadataVersioned (MU8a (array_contents shared a)), shared)"
proof -
  have t: "isU8a_or_falsy_or_isHex val"
    using assms(1) by (cases val) (auto split: if_splits)
  show ?thesis
    using assms t by (simp add: decodeMetadata.simps [of _ shared val] split: sum.splits)
qed

text \<open>
  What one call of \<open>decodeMetadata\<close> returns and what it leaves in the shared array. The
  write of the fallback goes into the shared array exactly when the array that is decoded
  is \<open>EMPTY_METADATA\<close> itself.
\<close>

lemma decodeMetadata_result:
  assumes "toU8a val = Inr a"
  shows "decodeMetadata MetadataVersioned shared val =
           (case MetadataVersioned (MU8a (array_contents shared a)) of
              Inr m \<Rightarrow> (Inr m, shared)
            | Inl e \<Rightarrow>
                if versionByte (array_contents shared a) = Some 9
                then (MetadataVersioned (MU8a ((array_contents shared a)[VERSION_IDX := 10])),
                      case a of
                        EmptyMetadataArray \<Rightarrow> shared[VERSION_IDX := 10]
                      | OwnArray bytes \<Rightarrow> shared)
                else (Inl e, shared))"
proof -
  let ?blob = "array_contents shared a"
  have t: "isU8a_or_falsy_or_isHex val"
    using assms by (cases val) (auto split: if_splits)
  show ?thesis
  proof (cases "MetadataVersioned (MU8a ?blob)")
    case (Inr m)
    then show ?thesis using assms t by (simp add: decodeMetadata.simps [of _ shared val])
  next
    case (Inl e)
    show ?thesis
    proof (cases "versionByte ?blob = Some 9")
      case False
      then show ?thesis using Inl assms t by (simp add: decodeMetadata.simps [of _ shared val])
    next
      case True
      let ?w = "?blob[VERSION_IDX := 10]"
      from True have len: "VERSION_IDX < length ?blob"
        by (simp add: versionByte_def split: if_splits)
      then have v10: "versionByte ?w = Some 10" and ne: "?w \<noteq> []"
        by (auto simp add: versionByte_def)
      show ?thesis
      proof (cases a)
        case EmptyMetadataArray
        have c: "array_contents (shared[VERSION_IDX := 10]) EmptyMetadataArray = ?w"
          using EmptyMetadataArray by (simp add: array_contents_def)
        have "decodeMetadata MetadataVersioned (shared[VERSION_IDX := 10]) MEmptyMetadata =
                (MetadataVersioned (MU8a ?w), shared[VERSION_IDX := 10])"
          using decodeMetadata_rewritten
            [of MEmptyMetadata EmptyMetadataArray "shared[VERSION_IDX := 10]" MetadataVersioned]
            v10 c
          by simp
        then show ?thesis
          using Inl True assms t EmptyMetadataArray
          by (simp add: decodeMetadata.simps [of _ shared val])
      next
        case (OwnArray bytes)
        have w: "?w = bytes[VERSION_IDX := 10]"
          using OwnArray by (simp add: array_contents_def)
        have c: "array_contents shared (OwnArray ?w) = ?w"
          by (simp add: array_contents_def)
        have "decodeMetadata MetadataVersioned shared (MU8a ?w) =
                (MetadataVersioned (MU8a ?w), shared)"
          using decodeMetadata_rewritten [of "MU8a ?w" "OwnArray ?w" shared MetadataVersioned]
            v10 ne c
          by simp
        then show ?thesis
          using Inl True assms t OwnArray w
          by (simp add: decodeMetadata.simps [of _ shared val])
      qed
    qed
  qed
qed

text \<open>
  Claim C2. The version fallback of \<open>decodeMetadata\<close>, for every blob, every versioned
  decoder and whatever the shared array holds. The blob is decoded as it is. If that fails
  and the version byte at offset 4 is 9, the byte is rewritten to 10 and the result is that
  of decoding the rewritten blob, a success or a failure, with no further attempt. If it
  fails under any other version byte, or with no byte at offset 4, the failure is the
  result.
\<close>

theorem decodeMetadata_fallback:
  assumes "toU8a val = Inr a" and "value = array_contents shared a"
  shows "fst (decodeMetadata MetadataVersioned shared val) =
           (case MetadataVersioned (MU8a value) of
              Inr m \<Rightarrow> Inr m
            | Inl e \<Rightarrow>
                if versionByte value = Some 9
                then MetadataVersioned (MU8a (value[VERSION_IDX := 10]))
                else Inl e)"
  using assms(2) decodeMetadata_result [OF assms(1), of MetadataVersioned shared]
  by (simp split: sum.splits)

text \<open>
  A blob labelled version 9 that decodes only as version 10 is decoded through the
  fallback, and one labelled version 8 fails with the failure of its only attempt.
\<close>

theorem decodeMetadata_fallback_witness:
  "toU8a (MU8a [0x6d, 0x65, 0x74, 0x61, 9, 0] :: unit metadata_value)
     = Inr (OwnArray [0x6d, 0x65, 0x74, 0x61, 9, 0])
   \<and> [0x6d, 0x65, 0x74, 0x61, 9, 0]
     = array_contents EMPTY_METADATA (OwnArray [0x6d, 0x65, 0x74, 0x61, 9, 0])
   \<and> fst (decodeMetadata onlyV10 EMPTY_METADATA (MU8a [0x6d, 0x65, 0x74, 0x61, 9, 0]))
     = Inr [0x6d, 0x65, 0x74, 0x61, 10, 0]
   \<and> fst (decodeMetadata onlyV10 EMPTY_METADATA (MU8a [0x6d, 0x65, 0x74, 0x61, 8, 0]))
     = Inl (ConstructorError ''version'')"
  using decodeMetadata_fallback [of "MU8a [0x6d, 0x65, 0x74, 0x61, 9, 0]"
          "OwnArray [0x6d, 0x65, 0x74, 0x61, 9, 0]" "[0x6d, 0x65, 0x74, 0x61, 9, 0]"
          EMPTY_METADATA onlyV10]
        decodeMetadata_fallback [of "MU8a [0x6d, 0x65, 0x74, 0x61, 8, 0]"
          "OwnArray [0x6d, 0x65, 0x74, 0x61, 8, 0]" "[0x6d, 0x65, 0x74, 0x61, 8, 0]"
          EMPTY_METADATA onlyV10]
  by (simp add: onlyV10_def versionByte_def VERSION_IDX_def array_contents_def)

text \<open>
  The shared array keeps its contents through every call as long as the versioned decoder
  accepts them.
\<close>

lemma decodeMetadata_keeps_shared:
  assumes "MetadataVersioned (MU8a shared) = Inr m"
  shows "snd (decodeMetadata MetadataVersioned shared val) = shared"
proof (cases "isU8a_or_falsy_or_isHex val")
  case False
  then show ?thesis by (simp add: decodeMetadata.simps [of _ shared val])
next
  case True
  show ?thesis
  proof (cases "toU8a val")
    case (Inl e)
    then show ?thesis using True by (simp add: decodeMetadata.simps [of _ shared val])
  next
    case (Inr a)
    show ?thesis
      using assms decodeMetadata_result [OF Inr, of MetadataVersioned shared]
      by (cases a) (simp_all add: array_contents_def split: sum.splits)
  qed
qed

lemma sharedAfter_keeps_shared:
  assumes "MetadataVersioned (MU8a shared) = Inr m"
  shows "sharedAfter MetadataVersioned shared vals = shared"
  using assms by (induction vals) (simp_all add: decodeMetadata_keeps_shared)

lemma toU8a_empty:
  assumes "val = MUndefined \<or> val = MU8a [] \<or> val = MHex []"
  shows "toU8a val = Inr EmptyMetadataArray"
  using assms by (auto simp add: EMPTY_U8A_def)

text \<open>
  Claim C9. With a versioned decoder that accepts the five bytes \<open>6d 65 74 61 09\<close>, as
  the decoder of the empty module list does, constructing from an empty buffer, from no
  value at all or from an empty hex string raises no error at any time, whatever has been
  constructed before: \<open>toU8a\<close> returns the array \<open>EMPTY_METADATA\<close>, which still holds the
  sentinel \<open>6d 65 74 61 09\<close>, and \<open>decodeMetadata\<close> returns what the decoder makes of
  those bytes and leaves them as they are.
\<close>

theorem empty_metadata_sentinel:
  assumes "MetadataVersioned (MU8a [0x6d, 0x65, 0x74, 0x61, 9]) = Inr m"
    and "val = MUndefined \<or> val = MU8a [] \<or> val = MHex []"
  shows "toU8a val = Inr EmptyMetadataArray
     \<and> array_contents (sharedAfter MetadataVersioned EMPTY_METADATA earlier) EmptyMetadataArray
         = [0x6d, 0x65, 0x74, 0x61, 9]
     \<and> decodeMetadata MetadataVersioned (sharedAfter MetadataVersioned EMPTY_METADATA earlier) val
         = (Inr m, [0x6d, 0x65, 0x74, 0x61, 9])"
proof -
  have m: "MetadataVersioned (MU8a EMPTY_METADATA) = Inr m"
    using assms(1) by (simp add: EMPTY_METADATA_def)
  have s: "sharedAfter MetadataVersioned EMPTY_METADATA earlier = EMPTY_METADATA"
    using m by (rule sharedAfter_keeps_shared)
  have t: "toU8a val = Inr EmptyMetadataArray"
    using assms(2) by (rule toU8a_empty)
  have c: "array_contents EMPTY_METADATA EmptyMetadataArray = EMPTY_METADATA"
    by (simp add: array_contents_def)
  have d: "decodeMetadata MetadataVersioned EMPTY_METADATA val = (Inr m, EMPTY_METADATA)"
    using decodeMetadata_result [OF t, of MetadataVersioned EMPTY_METADATA] m c by simp
  show ?thesis
    using s t c d by (simp add: EMPTY_METADATA_def)
qed

text \<open>
  No value at all, after a blob labelled version 9 that went through the fallback and a
  blob of version 8 that failed.
\<close>

theorem empty_metadata_sentinel_witness:
  "emptyOrV10 (MU8a [0x6d, 0x65, 0x74, 0x61, 9]) = Inr [0x6d, 0x65, 0x74, 0x61, 9]
   \<and> toU8a (MUndefined :: unit metadata_value) = Inr EmptyMetadataArray
   \<and> decodeMetadata emptyOrV10
        (sharedAfter emptyOrV10 EMPTY_METADATA
           [MU8a [0x6d, 0x65, 0x74, 0x61, 9, 0], MU8a [0x6d, 0x65, 0x74, 0x61, 8, 0]])
        MUndefined
       = (Inr [0x6d, 0x65, 0x74, 0x61, 9], [0x6d, 0x65, 0x74, 0x61, 9])"
  using empty_metadata_sentinel [of emptyOrV10 "[0x6d, 0x65, 0x74, 0x61, 9]" MUndefined
          "[MU8a [0x6d, 0x65, 0x74, 0x61, 9, 0], MU8a [0x6d, 0x65, 0x74, 0x61, 8, 0]]"]
  by (simp add: emptyOrV10_def)

text \<open>
  The first construction from an empty input, for every versioned decoder: the bytes that
  are decoded are the sentinel, and only if the decoder refuses them are they rewritten to
  version 10, in the shared array itself, and decoded again.
\<close>

lemma decodeMetadata_empty:
  assumes "val = MUndefined \<or> val = MU8a [] \<or> val = MHex []"
  shows "decodeMetadata MetadataVersioned EMPTY_METADATA val =
           (case MetadataVersioned (MU8a [0x6d, 0x65, 0x74, 0x61, 9]) of
              Inr m \<Rightarrow> (Inr m, [0x6d, 0x65, 0x74, 0x61, 9])
            | Inl e \<Rightarrow>
                (MetadataVersioned (MU8a [0x6d, 0x65, 0x74, 0x61, 10]),
                 [0x6d, 0x65, 0x74, 0x61, 10]))"
  using decodeMetadata_result [OF toU8a_empty [OF assms], of MetadataVersioned EMPTY_METADATA]
  by (simp add: array_contents_def EMPTY_METADATA_def versionByte_def VERSION_IDX_def
        split: sum.splits)

text \<open>
  With a decoder that refuses the sentinel under version 9, the fallback writes into
  \<open>EMPTY_METADATA\<close>, and the next empty input is decoded from \<open>6d 65 74 61 0a\<close>.
\<close>

lemma decodeMetadata_shared_write:
  "decodeMetadata onlyV10 EMPTY_METADATA MUndefined
     = (Inr [0x6d, 0x65, 0x74, 0x61, 10], [0x6d, 0x65, 0x74, 0x61, 10])
   \<and> array_contents (sharedAfter onlyV10 EMPTY_METADATA [MUndefined]) EmptyMetadataArray
     = [0x6d, 0x65, 0x74, 0x61, 10]"
  using decodeMetadata_empty [of MUndefined onlyV10]
  by (simp add: onlyV10_def versionByte_def VERSION_IDX_def array_contents_def)

section \<open>Extrinsic\<close>

text \<open>
  Claim C3. The envelope of every extrinsic: \<open>toU8a()\<close> is the compact length, the
  version byte and the inner payload, where the version byte is the format version with
  \<open>0x80\<close> or-ed in if the extrinsic is signed; \<open>toU8a(true)\<close> is the same without the
  compact length, and nothing else is left out. For format 4 the version byte is \<open>0x04\<close>
  unsigned and \<open>0x84\<close> signed.
\<close>

theorem extrinsic_envelope:
  "GenericExtrinsic_toU8a raw False =
     compactToU8a (Suc (length (raw_toU8a raw)))
       @ [of_nat (raw_version raw OR (if raw_signature_isSigned raw then 0x80 else 0))]
       @ raw_toU8a raw
   \<and> GenericExtrinsic_toU8a raw True =
     [of_nat (raw_version raw OR (if raw_signature_isSigned raw then 0x80 else 0))]
       @ raw_toU8a raw
   \<and> GenericExtrinsic_toU8a raw False = compactAddLength (GenericExtrinsic_toU8a raw True)
   \<and> GenericExtrinsic_toU8a (raw\<lparr>raw_version := 4, raw_signature_isSigned := False\<rparr>) True
       = 0x04 # raw_toU8a raw
   \<and> GenericExtrinsic_toU8a (raw\<lparr>raw_version := 4, raw_signature_isSigned := True\<rparr>) True
       = 0x84 # raw_toU8a raw"
  by (simp add: GenericExtrinsic_toU8a_def Extrinsic_version_def Extrinsic_type_def
        Extrinsic_isSigned_def BIT_SIGNED_def BIT_UNSIGNED_def u8aConcat_def compactAddLength_def)

lemma VERSIONS_lookup:
  assumes "i \<noteq> 4"
  shows "(if i < length VERSIONS \<and> VERSIONS ! i \<noteq> [] then VERSIONS ! i else VERSIONS ! 0)
           = ''ExtrinsicUnknown''"
proof (cases "i < 5")
  case False
  then show ?thesis by (simp add: VERSIONS_def)
next
  case True
  with assms consider "i = 0" | "i = 1" | "i = 2" | "i = 3" by linarith
  then show ?thesis by cases (simp_all add: VERSIONS_def)
qed

text \<open>
  A version whose low 7 bits are not 4 is dispatched to the type name \<open>ExtrinsicUnknown\<close>,
  for every registry: formats 0 to 3 by the table and every format above 4 by the
  fallback to its first entry.
\<close>

lemma newFromValue_unknown:
  assumes "toInt32 version AND UNMASK_VERSION \<noteq> 4"
  shows "newFromValue registry (FromValue v) version =
           createType registry ''ExtrinsicUnknown'' v
             \<lparr>opt_isSigned = (toInt32 version AND BIT_SIGNED = BIT_SIGNED),
              opt_version = version\<rparr>"
  using VERSIONS_lookup [OF assms] by (simp add: Let_def)

lemma decodeU8a_compactAddLength:
  assumes "Suc (length payload) \<le> 1073741823"
  shows "decodeU8a registry (compactAddLength (b # payload) @ rest) version =
           newFromValue registry (FromValue (CBytes payload)) (Some (unat b))"
proof -
  let ?n = "Suc (length payload)"
  let ?p = "compactToU8a ?n"
  have c: "compactFromU8a (?p @ ((b # payload) @ rest)) = Inr (length ?p, ?n)"
    using assms by (rule compactFromU8a_compactToU8a)
  have l: "\<not> (2::nat) ^ 53 \<le> ?n" using assms by simp
  have p: "?p \<noteq> []" using length_compactToU8a_pos [of ?n] by auto
  have "decodeU8a registry (?p @ ((b # payload) @ rest)) version =
           newFromValue registry (FromValue (CBytes payload)) (Some (unat b))"
    unfolding decodeU8a_def c using l p
    by (simp add: subarray_def Let_def del: newFromValue.simps)
  then show ?thesis by (simp add: compactAddLength_def del: newFromValue.simps)
qed

text \<open>
  Claim C7. In a registry that has the class \<open>ExtrinsicUnknown\<close> under its name, a
  version whose low 7 bits are not 4, the only format with a registered shape, is
  constructed as an \<open>ExtrinsicUnknown\<close> value and no error is raised: formats 0 to 3 and
  every format above 4 alike, signed or not. The value holds what it was constructed
  from, with the signed flag and the version as its options. Decoding a length-prefixed
  buffer whose version byte is such a version gives the \<open>ExtrinsicUnknown\<close> of the
  payload that follows the version byte.
\<close>

theorem unknown_extrinsic_version:
  assumes "registry ''ExtrinsicUnknown'' = Some ExtrinsicUnknown_new"
  shows "(toInt32 version AND UNMASK_VERSION \<noteq> 4 \<longrightarrow>
            newFromValue registry (FromValue v) version =
              Inr (ExtrinsicUnknown v
                     \<lparr>opt_isSigned = (toInt32 version AND BIT_SIGNED = BIT_SIGNED),
                      opt_version = version\<rparr>))
     \<and> (unat b AND UNMASK_VERSION \<noteq> 4 \<and> Suc (length payload) \<le> 1073741823 \<longrightarrow>
            decodeU8a registry (compactAddLength (b # payload) @ rest) version' =
              Inr (ExtrinsicUnknown (CBytes payload)
                     \<lparr>opt_isSigned = (unat b AND BIT_SIGNED = BIT_SIGNED),
                      opt_version = Some (unat b)\<rparr>))"
  using assms newFromValue_unknown [of version registry v]
        newFromValue_unknown [of "Some (unat b)" registry "CBytes payload"]
        decodeU8a_compactAddLength [of payload registry b rest version']
  by (simp add: toInt32_def createType_def ExtrinsicUnknown_new_def del: newFromValue.simps)

text \<open>
  Version \<open>0x83\<close> (format 3, signed) and the buffer \<open>08 05 01\<close> (format 5, unsigned), in
  the registry of the two extrinsic types.
\<close>

theorem unknown_extrinsic_version_witness:
  "exampleRegistry ''ExtrinsicUnknown'' = Some ExtrinsicUnknown_new
   \<and> toInt32 (Some 131) AND UNMASK_VERSION \<noteq> 4
   \<and> newFromValue exampleRegistry (FromValue (CBytes [1])) (Some 131)
       = Inr (ExtrinsicUnknown (CBytes [1]) \<lparr>opt_isSigned = True, opt_version = Some 131\<rparr>)
   \<and> unat (5 :: u8) AND UNMASK_VERSION \<noteq> 4
   \<and> decodeU8a exampleRegistry [8, 5, 1] None
       = Inr (ExtrinsicUnknown (CBytes [1]) \<lparr>opt_isSigned = False, opt_version = Some 5\<rparr>)"
  using unknown_extrinsic_version [of exampleRegistry "Some 131" "CBytes [1]" 5 "[1]" "[]" None]
  by (simp add: toInt32_def UNMASK_VERSION_def BIT_SIGNED_def exampleRegistry_def
        compactAddLength_def compactToU8a_def del: newFromValue.simps)

text \<open>
  The dispatch is all that \<open>_newFromValue\<close> does: a registry without the name raises
  \<open>UnknownType\<close>, and a failure of the constructor is the result.
\<close>

lemma newFromValue_unregistered:
  assumes "toInt32 version AND UNMASK_VERSION \<noteq> 4" and "registry ''ExtrinsicUnknown'' = None"
  shows "newFromValue registry (FromValue v) version = Inl (UnknownType ''ExtrinsicUnknown'')"
  using assms(2) newFromValue_unknown [OF assms(1), of registry v]
  by (simp add: createType_def del: newFromValue.simps)

text \<open>Format 4, signed or not, is dispatched to \<open>ExtrinsicV4\<close>.\<close>

lemma newFromValue_V4:
  assumes "toInt32 version AND UNMASK_VERSION = 4"
  shows "newFromValue registry (FromValue v) version =
           createType registry ''ExtrinsicV4'' v
             \<lparr>opt_isSigned = (toInt32 version AND BIT_SIGNED = BIT_SIGNED),
              opt_version = version\<rparr>"
  using assms by (simp add: Let_def VERSIONS_def)

text \<open>The buffer \<open>08 84 01\<close> (format 4, signed) is an \<open>ExtrinsicV4\<close> in that registry.\<close>

lemma decodeU8a_V4_example:
  "decodeU8a exampleRegistry [8, 0x84, 1] None
     = Inr (ExtrinsicV4 \<lparr>raw_version = 4, raw_signature_isSigned = True, raw_toU8a = [1]\<rparr>)"
  using decodeU8a_compactAddLength [of "[1]" exampleRegistry "0x84" "[]" None]
        newFromValue_V4 [of "Some 132" exampleRegistry "CBytes [1]"]
  by (simp add: toInt32_def UNMASK_VERSION_def BIT_SIGNED_def exampleRegistry_def
        createType_def compactAddLength_def compactToU8a_def del: newFromValue.simps)

section \<open>Objects\<close>

lemma fst_set_obj_set: "fst ` set (obj_set obj k v) = insert k (fst ` set obj)"
proof (induction obj)
  case Nil
  show ?case by simp
next
  case (Cons p obj)
  obtain k' v' where p: "p = (k', v')" by (cases p)
  show ?case
  proof (cases "k' = k")
    case True
    then show ?thesis using p by simp
  next
    case False
    then show ?thesis using p Cons.IH by (simp add: insert_commute)
  qed
qed

lemma set_Object_keys: "set (Object_keys obj) = fst ` set obj"
  by (simp add: Object_keys_def)

lemma map_of_obj_set: "map_of (obj_set obj k v) = (map_of obj)(k \<mapsto> v)"
  by (induction obj) (auto simp add: fun_eq_iff)

lemma obj_set_new: "k \<notin> fst ` set obj \<Longrightarrow> obj_set obj k v = obj @ [(k, v)]"
  by (induction obj) auto

lemma map_of_foldl_obj_set_other:
  "k \<notin> fst ` set ps \<Longrightarrow>
   map_of (foldl (\<lambda>result (k, v). obj_set result k v) init ps) k = map_of init k"
  by (induction ps arbitrary: init) (auto simp add: map_of_obj_set)

lemma map_of_foldl_obj_set_last:
  assumes "k \<notin> fst ` set ps2"
  shows "map_of (foldl (\<lambda>result (k, v). obj_set result k v) init (ps1 @ (k, v) # ps2)) k
           = Some v"
  using assms by (simp add: map_of_foldl_obj_set_other map_of_obj_set)

lemma foldl_obj_set_distinct:
  "distinct (map fst (init @ ps)) \<Longrightarrow>
   foldl (\<lambda>result (k, v). obj_set result k v) init ps = init @ ps"
proof (induction ps arbitrary: init)
  case Nil
  then show ?case by simp
next
  case (Cons p ps)
  obtain k v where p: "p = (k, v)" by (cases p)
  have "k \<notin> fst ` set init" using Cons.prems p by auto
  then have s: "obj_set init k v = init @ [(k, v)]" by (rule obj_set_new)
  have "distinct (map fst ((init @ [(k, v)]) @ ps))" using Cons.prems p by simp
  then have "foldl (\<lambda>result (k, v). obj_set result k v) (init @ [(k, v)]) ps
               = (init @ [(k, v)]) @ ps"
    by (rule Cons.IH)
  then show ?case using p s by simp
qed

section \<open>Derives\<close>

lemma keys_objectSpread:
  "set (Object_keys (objectSpread a b)) = set (Object_keys a) \<union> set (Object_keys b)"
  unfolding objectSpread_def set_Object_keys
proof (induction b arbitrary: a)
  case Nil
  then show ?case by simp
next
  case (Cons p b)
  obtain k v where p: "p = (k, v)" by (cases p)
  show ?case using Cons.IH [of "obj_set a k v"] p by (auto simp add: fst_set_obj_set)
qed

text \<open>None of the names that \<open>Object.prototype\<close> has is a key of \<open>checks\<close>.\<close>

lemma checks_get_prototype_keys:
  "list_all (\<lambda>s. checks_get s = Inherited) Object_prototype_keys"
  by (simp add: checks_get_def Object_prototype_keys_def checks_def obj_get_def)

lemma checks_get_inherited:
  assumes "s \<in> set Object_prototype_keys"
  shows "checks_get s = Inherited"
  using assms checks_get_prototype_keys by (simp add: list_all_iff)

text \<open>\<open>isIncluded\<close> raises exactly on those names.\<close>

lemma isIncluded_raises:
  "isIncluded api specName queryKeys s = Inl e
     \<longleftrightarrow> e = TypeError \<and> s \<in> set Object_prototype_keys"
proof (cases "s \<in> set Object_prototype_keys")
  case True
  then show ?thesis using checks_get_inherited [OF True] by (auto simp add: isIncluded_def)
next
  case False
  then show ?thesis
    by (simp add: isIncluded_def checks_get_def split: option.splits)
qed

lemma isIncluded_undefined:
  assumes "obj_get checks s = None" and "s \<notin> set Object_prototype_keys"
  shows "isIncluded api specName queryKeys s = Inr True"
  using assms by (simp add: isIncluded_def checks_get_def)

lemma not_isIncluded:
  assumes "obj_get checks name = Some c"
    and "\<forall>q \<in> set (instances c). q \<notin> set queryKeys"
    and "withDetect c \<longrightarrow>
           (\<forall>q \<in> set (instances c). \<forall>i \<in> set (getModuleInstances api specName q).
              i \<notin> set queryKeys)"
  shows "isIncluded api specName queryKeys name = Inr False"
  using assms
  by (auto simp add: isIncluded_def checks_get_def filterQueryKeys_def filterInstances_def
        list_ex_iff)

text \<open>The loop raises as soon as one of the names does, and otherwise returns a map.\<close>

lemma injectLoop_raises:
  assumes "n \<in> set names" and "n \<in> set Object_prototype_keys"
  shows "injectLoop api specName queryKeys g c init names = Inl TypeError"
  using assms
proof (induction names arbitrary: init)
  case Nil
  then show ?case by simp
next
  case (Cons name names)
  show ?case
  proof (cases "isIncluded api specName queryKeys name")
    case (Inl e)
    then have "e = TypeError" by (simp add: isIncluded_raises)
    then show ?thesis using Inl by simp
  next
    case (Inr included)
    then have "name \<notin> set Object_prototype_keys"
      using isIncluded_raises [of api specName queryKeys name TypeError] by auto
    then have "n \<in> set names" using Cons.prems by auto
    then show ?thesis using Inr Cons.IH Cons.prems(2) by simp
  qed
qed

lemma injectLoop_returns:
  assumes "\<forall>n \<in> set names. n \<notin> set Object_prototype_keys"
  shows "\<exists>r. injectLoop api specName queryKeys g c init names = Inr r"
  using assms
proof (induction names arbitrary: init)
  case Nil
  then show ?case by simp
next
  case (Cons name names)
  have "\<not> isl (isIncluded api specName queryKeys name)"
    using Cons.prems isIncluded_raises [of api specName queryKeys name]
    by (cases "isIncluded api specName queryKeys name") auto
  then obtain included where "isIncluded api specName queryKeys name = Inr included"
    by (cases "isIncluded api specName queryKeys name") auto
  then show ?case using Cons.IH Cons.prems by simp
qed

lemma keys_injectLoop:
  assumes "injectLoop api specName queryKeys g c init names = Inr r"
  shows "set (Object_keys r)
           = set (Object_keys init)
             \<union> {n \<in> set names. isIncluded api specName queryKeys n = Inr True}"
  using assms
proof (induction names arbitrary: init)
  case Nil
  then show ?case by simp
next
  case (Cons name names)
  show ?case
  proof (cases "isIncluded api specName queryKeys name")
    case (Inl e)
    then show ?thesis using Cons.prems by simp
  next
    case (Inr included)
    then have "injectLoop api specName queryKeys g c
                 (if included then lazyDeriveSection init name g c else init) names = Inr r"
      using Cons.prems by simp
    then have "set (Object_keys r)
                 = set (Object_keys (if included then lazyDeriveSection init name g c else init))
                   \<union> {n \<in> set names. isIncluded api specName queryKeys n = Inr True}"
      by (rule Cons.IH)
    then show ?thesis
      using Inr by (auto simp add: lazyDeriveSection_def set_Object_keys fst_set_obj_set)
  qed
qed

lemma map_of_injectLoop:
  assumes "injectLoop api specName queryKeys g c init names = Inr r"
  shows "map_of r name
           = (if name \<in> set names \<and> isIncluded api specName queryKeys name = Inr True
              then Some (map (\<lambda>method. (method, c name method)) (g name))
              else map_of init name)"
  using assms
proof (induction names arbitrary: init)
  case Nil
  then show ?case by simp
next
  case (Cons n names)
  show ?case
  proof (cases "isIncluded api specName queryKeys n")
    case (Inl e)
    then show ?thesis using Cons.prems by simp
  next
    case (Inr included)
    then have "injectLoop api specName queryKeys g c
                 (if included then lazyDeriveSection init n g c else init) names = Inr r"
      using Cons.prems by simp
    then have "map_of r name
                 = (if name \<in> set names \<and> isIncluded api specName queryKeys name = Inr True
                    then Some (map (\<lambda>method. (method, c name method)) (g name))
                    else map_of (if included then lazyDeriveSection init n g c else init) name)"
      by (rule Cons.IH)
    then show ?thesis
      using Inr by (auto simp add: lazyDeriveSection_def map_of_obj_set)
  qed
qed

lemma keys_injectFunctions:
  assumes "injectFunctions instanceId api derives = Inr r"
  shows "set (Object_keys r)
           = {n \<in> set (Object_keys derives).
                isIncluded api (api_runtimeVersion_specName api) (api_query_keys api) n
                  = Inr True}"
  using keys_injectLoop [of api "api_runtimeVersion_specName api" "api_query_keys api"
          "getKeys derives" "creator instanceId api derives" "[]" "Object_keys derives" r]
        assms
  by (simp add: injectFunctions_def Let_def Object_keys_def)

lemma obj_get_injectFunctions:
  assumes "injectFunctions instanceId api derives = Inr r"
  shows "obj_get r name
           = (if name \<in> set (Object_keys derives)
                 \<and> isIncluded api (api_runtimeVersion_specName api) (api_query_keys api) name
                     = Inr True
              then Some (map (\<lambda>method. (method, creator instanceId api derives name method))
                           (getKeys derives name))
              else None)"
  using map_of_injectLoop [of api "api_runtimeVersion_specName api" "api_query_keys api"
          "getKeys derives" "creator instanceId api derives" "[]" "Object_keys derives" r name]
        assms
  by (simp add: injectFunctions_def Let_def obj_get_def)

text \<open>
  Whenever a map is returned, a section that is in \<open>checks\<close>, none of whose listed
  instance names is a key of \<open>api.query\<close> and, when detection is enabled for it, none of
  whose listed names has a module instance of the runtime among those keys, is not a key of
  the decorated map, nor of the map that \<open>getAvailableDerives\<close> merges.
\<close>

lemma section_excluded:
  assumes "obj_get checks name = Some c"
    and "\<forall>q \<in> set (instances c). q \<notin> set (api_query_keys api)"
    and "withDetect c \<longrightarrow>
           (\<forall>q \<in> set (instances c).
              \<forall>i \<in> set (getModuleInstances api (api_runtimeVersion_specName api) q).
                i \<notin> set (api_query_keys api))"
  shows "(injectFunctions instanceId api derives = Inr r \<longrightarrow>
            name \<notin> set (Object_keys r) \<and> obj_get r name = None)
     \<and> (getAvailableDerives derive instanceId api custom = Inr all \<longrightarrow>
            name \<notin> set (Object_keys all))"
proof -
  have a: "isIncluded api (api_runtimeVersion_specName api) (api_query_keys api) name = Inr False"
    using assms by (rule not_isIncluded)
  have b: "name \<notin> set (Object_keys r') \<and> obj_get r' name = None"
    if "injectFunctions instanceId api d = Inr r'" for d r'
    using a keys_injectFunctions [OF that] obj_get_injectFunctions [OF that, of name] by simp
  have c: "name \<notin> set (Object_keys all)"
    if "getAvailableDerives derive instanceId api custom = Inr all"
  proof -
    from that obtain builtin added
      where 1: "injectFunctions instanceId api derive = Inr builtin"
        and 2: "injectFunctions instanceId api custom = Inr added"
        and 3: "all = objectSpread builtin added"
      by (auto simp add: getAvailableDerives_def split: sum.splits)
    show ?thesis using b [OF 1] b [OF 2] 3 by (simp add: keys_objectSpread)
  qed
  show ?thesis using b c by blast
qed

text \<open>
  A section that is not in \<open>checks\<close> is decorated, with the methods of that section under
  it, when none of the sections to decorate has a name that \<open>Object.prototype\<close> has too.
  No matching query key is needed for that.
\<close>

lemma section_included:
  assumes "obj_get checks name = None" and "name \<in> set (Object_keys derives)"
    and "\<forall>n \<in> set (Object_keys derives). n \<notin> set Object_prototype_keys"
  shows "\<exists>r. injectFunctions instanceId api derives = Inr r
           \<and> name \<in> set (Object_keys r)
           \<and> obj_get r name
               = Some (map (\<lambda>method. (method, creator instanceId api derives name method))
                         (getKeys derives name))"
proof -
  have "\<exists>r. injectLoop api (api_runtimeVersion_specName api) (api_query_keys api)
              (getKeys derives) (creator instanceId api derives) [] (Object_keys derives) = Inr r"
    using assms(3) by (rule injectLoop_returns)
  then obtain r where r: "injectFunctions instanceId api derives = Inr r"
    by (auto simp add: injectFunctions_def Let_def)
  have i: "isIncluded api (api_runtimeVersion_specName api) (api_query_keys api) name = Inr True"
    using assms by (simp add: isIncluded_undefined)
  show ?thesis
    using r i assms(2) keys_injectFunctions [OF r] obj_get_injectFunctions [OF r, of name]
    by simp
qed

text \<open>
  With the query keys \<open>system\<close> and \<open>balances\<close>: \<open>staking\<close> is in \<open>checks\<close> and not
  among the keys, \<open>council\<close> is in \<open>checks\<close> with detection and its instance
  \<open>generalCouncil\<close> is not among the keys either, so both are left out; \<open>chain\<close> is not
  in \<open>checks\<close> and is decorated, though no query key matches it.
\<close>

lemma injectFunctions_example:
  "injectFunctions instanceId exampleApi exampleDerives
     = Inr [(''chain'', [(''bestNumber'', Some ())])]"
  by (simp add: injectFunctions_def isIncluded_def checks_get_def checks_def obj_get_def
        Object_prototype_keys_def exampleApi_def exampleDerives_def Object_keys_def
        getModuleInstances_def getKeys_def creator_def lazyDeriveSection_def
        filterQueryKeys_def filterInstances_def)

text \<open>
  Claim C5 fails on the code for a section that has the name of a property of
  \<open>Object.prototype\<close>. The section \<open>constructor\<close> is not in \<open>checks\<close>, so the claim has
  it decorated, with or without a matching query key. But \<open>checks[s]\<close> finds the inherited
  \<open>constructor\<close> there, and \<open>isIncluded\<close> raises a \<open>TypeError\<close>: for every runtime and
  whatever the methods of the section are, \<open>injectFunctions\<close> returns no map at all, with
  the section alone or along with the sections of the example, and neither does
  \<open>getAvailableDerives\<close> when the section is a custom one.
\<close>

theorem section_gating_inherited_name:
  "obj_get checks ''constructor'' = None
   \<and> checks_get ''constructor'' = Inherited
   \<and> injectFunctions instanceId api [(''constructor'', methods)] = Inl TypeError
   \<and> injectFunctions instanceId api (exampleDerives @ [(''constructor'', methods)])
       = Inl TypeError
   \<and> getAvailableDerives exampleDerives instanceId exampleApi [(''constructor'', methods)]
       = Inl TypeError"
proof -
  have p: "''constructor'' \<in> set Object_prototype_keys"
    by (simp add: Object_prototype_keys_def)
  have a: "obj_get checks ''constructor'' = None"
    by (simp add: checks_def obj_get_def)
  have b: "injectFunctions instanceId api' (ds @ [(''constructor'', methods)]) = Inl TypeError"
    for api' and ds :: "unit DeriveCustom"
    unfolding injectFunctions_def Let_def
    by (rule injectLoop_raises [OF _ p]) (simp add: Object_keys_def)
  show ?thesis
    using a checks_get_inherited [OF p] b [of api "[]"] b [of api exampleDerives]
      b [of exampleApi "[]"] injectFunctions_example
    by (simp add: getAvailableDerives_def)
qed

section \<open>Extrinsics from metadata\<close>

lemma foldl_pairs_obj_set:
  "foldl (\<lambda>result (i, x). obj_set result (key x) (val i x)) init ps
     = foldl (\<lambda>result (k, v). obj_set result k v) init
         (map (\<lambda>(i, x). (key x, val i x)) ps)"
  by (induction ps arbitrary: init) auto

lemma map_fst_enumerate_keys:
  "map fst (map (\<lambda>(i, x). (key x, val i x)) (enumerate n xs)) = map key xs"
  by (induction xs arbitrary: n) simp_all

lemma foldl_enumerate_distinct:
  assumes "distinct (map key xs)"
  shows "foldl (\<lambda>result (i, x). obj_set result (key x) (val i x)) [] (enumerate 0 xs)
           = map (\<lambda>(i, x). (key x, val i x)) (enumerate 0 xs)"
proof -
  have "distinct (map fst ([] @ map (\<lambda>(i, x). (key x, val i x)) (enumerate 0 xs)))"
    using assms by (simp only: append_Nil map_fst_enumerate_keys)
  then have "foldl (\<lambda>result (k, v). obj_set result k v) []
               (map (\<lambda>(i, x). (key x, val i x)) (enumerate 0 xs))
             = [] @ map (\<lambda>(i, x). (key x, val i x)) (enumerate 0 xs)"
    by (rule foldl_obj_set_distinct)
  then show ?thesis by (simp only: foldl_pairs_obj_set append_Nil)
qed

lemma map_of_foldl_enumerate_last:
  assumes "\<forall>y \<in> set ys. key y \<noteq> key x"
  shows "map_of (foldl (\<lambda>result (i, x). obj_set result (key x) (val i x)) init
                   (enumerate 0 (xs @ x # ys))) (key x)
           = Some (val (length xs) x)"
proof -
  let ?g = "\<lambda>(i, x). (key x, val i x)"
  have e: "map ?g (enumerate 0 (xs @ x # ys))
             = map ?g (enumerate 0 xs) @ (key x, val (length xs) x)
                 # map ?g (enumerate (Suc (length xs)) ys)"
    by (simp add: enumerate_append_eq)
  have "fst ` set (map ?g (enumerate (Suc (length xs)) ys)) = key ` set ys"
    using map_fst_enumerate_keys [of key val "Suc (length xs)" ys]
    by (metis list.set_map)
  then have n: "key x \<notin> fst ` set (map ?g (enumerate (Suc (length xs)) ys))"
    using assms by auto
  show ?thesis
    unfolding foldl_pairs_obj_set e using n by (rule map_of_foldl_obj_set_last)
qed

text \<open>
  The section of a module that has a call list, when no later module with a call list has
  the same section name: it is built with the number of earlier modules that have a call
  list as its section index.
\<close>

lemma fromMetadata_section:
  assumes "modules = pre @ m # post"
    and "modul_calls m = Some calls"
    and "\<forall>m' \<in> set post. calls_isSome m' \<longrightarrow>
           stringCamelCase (modul_name m') \<noteq> stringCamelCase (modul_name m)"
  shows "obj_get (fromMetadata stringCamelCase createUnchecked extrinsics modules)
           (stringCamelCase (modul_name m))
         = Some (foldl (\<lambda>newModule (methodIndex, callMetadata).
                          obj_set newModule (stringCamelCase (call_name callMetadata))
                            (createUnchecked (stringCamelCase (modul_name m))
                               (length (filter calls_isSome pre)) methodIndex callMetadata))
                   [] (enumerate 0 calls))"
proof -
  let ?key = "\<lambda>modul. stringCamelCase (modul_name modul)"
  let ?val = "\<lambda>sectionIndex modul.
      foldl (\<lambda>newModule (methodIndex, callMetadata).
               obj_set newModule (stringCamelCase (call_name callMetadata))
                 (createUnchecked (stringCamelCase (modul_name modul)) sectionIndex
                    methodIndex callMetadata))
        [] (enumerate 0 (calls_unwrap modul))"
  have f: "filter calls_isSome modules
             = filter calls_isSome pre @ m # filter calls_isSome post"
    using assms(1,2) by (simp add: calls_isSome_def)
  have n: "\<forall>y \<in> set (filter calls_isSome post). ?key y \<noteq> ?key m"
    using assms(3) by simp
  have "map_of (foldl (\<lambda>result (i, x). obj_set result (?key x) (?val i x)) extrinsics
                  (enumerate 0 (filter calls_isSome pre @ m # filter calls_isSome post)))
          (?key m)
        = Some (?val (length (filter calls_isSome pre)) m)"
    using n by (rule map_of_foldl_enumerate_last)
  then show ?thesis
    using assms(2) by (simp add: fromMetadata_def obj_get_def Let_def f calls_unwrap_def)
qed

text \<open>
  Claim C4, as amended. For every module of the metadata that has a call list, the
  decorator has under the module's camel-cased name one callable per call, in the order
  of declaration, each bound to the pair of the module index and the method index, where
  the method index is the position of the call in the module and the module index is the
  position of the module among the modules that have a call list: a module without
  calls is skipped and not counted. This holds when no later module with a call list
  takes the same section name, which would replace the section, and the camel-cased
  names of the calls differ, as otherwise a later call replaces an earlier one.
\<close>

theorem fromMetadata_binding:
  assumes "modules = pre @ m # post"
    and "modul_calls m = Some calls"
    and "\<forall>m' \<in> set post. calls_isSome m' \<longrightarrow>
           stringCamelCase (modul_name m') \<noteq> stringCamelCase (modul_name m)"
    and "distinct (map (\<lambda>c. stringCamelCase (call_name c)) calls)"
  shows "obj_get (fromMetadata stringCamelCase createUnchecked extrinsics modules)
           (stringCamelCase (modul_name m))
         = Some (map (\<lambda>(methodIndex, callMetadata).
                        (stringCamelCase (call_name callMetadata),
                         createUnchecked (stringCamelCase (modul_name m))
                           (length (filter calls_isSome pre)) methodIndex callMetadata))
                   (enumerate 0 calls))"
proof -
  have s: "obj_get (fromMetadata stringCamelCase createUnchecked extrinsics modules)
           (stringCamelCase (modul_name m))
         = Some (foldl (\<lambda>newModule (methodIndex, callMetadata).
                          obj_set newModule (stringCamelCase (call_name callMetadata))
                            (createUnchecked (stringCamelCase (modul_name m))
                               (length (filter calls_isSome pre)) methodIndex callMetadata))
                   [] (enumerate 0 calls))"
    using assms(1,2,3) by (rule fromMetadata_section)
  have d: "foldl (\<lambda>newModule (methodIndex, callMetadata).
                          obj_set newModule (stringCamelCase (call_name callMetadata))
                            (createUnchecked (stringCamelCase (modul_name m))
                               (length (filter calls_isSome pre)) methodIndex callMetadata))
                   [] (enumerate 0 calls)
         = map (\<lambda>(methodIndex, callMetadata).
                        (stringCamelCase (call_name callMetadata),
                         createUnchecked (stringCamelCase (modul_name m))
                           (length (filter calls_isSome pre)) methodIndex callMetadata))
                   (enumerate 0 calls)"
    using assms(4) by (rule foldl_enumerate_distinct)
  show ?thesis by (simp only: s d)
qed

text \<open>The module \<open>timestamp\<close>, after the module \<open>system\<close> that has no calls.\<close>

theorem fromMetadata_binding_witness:
  "exampleModules
     = [\<lparr>modul_name = ''system'', modul_calls = None\<rparr>]
       @ \<lparr>modul_name = ''timestamp'',
           modul_calls = Some [\<lparr>call_name = ''set'', call_rest = ()\<rparr>]\<rparr> # []
   \<and> obj_get (fromMetadata (\<lambda>s. s) exampleCreateUnchecked [] exampleModules) ''timestamp''
       = Some [(''set'', (''timestamp'', 0, 0))]"
  using fromMetadata_binding [where modules = exampleModules
          and pre = "[\<lparr>modul_name = ''system'', modul_calls = None\<rparr>]"
          and m = "\<lparr>modul_name = ''timestamp'',
                      modul_calls = Some [\<lparr>call_name = ''set'', call_rest = ()\<rparr>]\<rparr>"
          and post = "[]" and calls = "[\<lparr>call_name = ''set'', call_rest = ()\<rparr>]"
          and stringCamelCase = "\<lambda>s. s" and createUnchecked = exampleCreateUnchecked
          and extrinsics = "[]"]
  by (simp add: exampleModules_def exampleCreateUnchecked_def calls_isSome_def)

text \<open>
  Claim C4 as stated fails there: \<open>timestamp\<close> is at position 1 of the module list of the
  metadata, and its call \<open>set\<close> is bound to the module index 0, not 1.
\<close>

theorem fromMetadata_binding_counterexample:
  "exampleModules ! 1
     = \<lparr>modul_name = ''timestamp'',
         modul_calls = Some [\<lparr>call_name = ''set'', call_rest = ()\<rparr>]\<rparr>
   \<and> fromMetadata (\<lambda>s. s) exampleCreateUnchecked [] exampleModules
       = [(''timestamp'', [(''set'', (''timestamp'', 0, 0))])]
   \<and> fromMetadata (\<lambda>s. s) exampleCreateUnchecked [] exampleModules
       \<noteq> [(''timestamp'', [(''set'', (''timestamp'', 1, 0))])]"
  by (simp add: exampleModules_def exampleCreateUnchecked_def fromMetadata_def
        calls_isSome_def calls_unwrap_def Let_def)

end
